theory Spec2Isabelle
  imports Complex_Main "HOL-Library.AList"
begin

section \<open>Strings and JavaScript truthiness\<close>

text \<open>
  Strings are byte strings. The regular expression \<^verbatim>\<open>/^\d{4}$/\<close> (no flags) accepts exactly
  the strings of four ASCII digits. \<open>toLowerCase\<close> is modelled on ASCII letters, \<open>trim\<close>
  on the ASCII white space characters.
\<close>

definition isDigit :: "char \<Rightarrow> bool" where
  "isDigit c = (c \<in> set ''0123456789'')"

definition is4digit :: "string \<Rightarrow> bool" where
  "is4digit s = (length s = 4 \<and> list_all isDigit s)"

definition startsWith :: "string \<Rightarrow> string \<Rightarrow> bool" where
  "startsWith s p = (take (length p) s = p)"

definition digitChar :: "nat \<Rightarrow> char" where
  "digitChar d = ''0123456789'' ! d"

fun toString :: "nat \<Rightarrow> string" where
  "toString n = (if n < 10 then [digitChar n] else toString (n div 10) @ [digitChar (n mod 10)])"

declare toString.simps [simp del]

text \<open>\<open>lowerChar\<close> sends an ASCII capital to its small letter and leaves every other byte.\<close>

definition lowerChar :: "char \<Rightarrow> char" where
  "lowerChar c =
     (case map_of (zip ''ABCDEFGHIJKLMNOPQRSTUVWXYZ'' ''abcdefghijklmnopqrstuvwxyz'') c of
        None \<Rightarrow> c
      | Some l \<Rightarrow> l)"

definition toLowerCase :: "string \<Rightarrow> string" where
  "toLowerCase s = map lowerChar s"

definition isSpace :: "char \<Rightarrow> bool" where
  "isSpace c = ((of_char c :: nat) \<in> {9, 10, 11, 12, 13, 32})"

definition trim :: "string \<Rightarrow> string" where
  "trim s = rev (dropWhile isSpace (rev (dropWhile isSpace s)))"

primrec str_includes :: "string \<Rightarrow> string \<Rightarrow> bool" where
  "str_includes [] t = (t = [])"
| "str_includes (c # cs) t = (startsWith (c # cs) t \<or> str_includes cs t)"

text \<open>\<open>truthy s\<close>: the value of an optional string in a JavaScript condition.\<close>

definition truthy :: "string option \<Rightarrow> bool" where
  "truthy s = (case s of None \<Rightarrow> False | Some v \<Rightarrow> v \<noteq> [])"

text \<open>\<open>orStr a d\<close> is \<^verbatim>\<open>a || d\<close> for an optional string \<open>a\<close>.\<close>

definition orStr :: "string option \<Rightarrow> string \<Rightarrow> string" where
  "orStr a d = (case a of None \<Rightarrow> d | Some v \<Rightarrow> if v = [] then d else v)"

section \<open>Data model (\<^verbatim>\<open>ws.ts\<close>, \<^verbatim>\<open>types.ts\<close>)\<close>

type_synonym ws = nat
type_synonym ref = nat
type_synonym timer = nat

datatype ReadyState = OPEN | CLOSING | CLOSED

record Location =
  latitude :: "real option"
  longitude :: "real option"

record ScoreEntry =
  entry_id :: string
  points :: int
  timestamp :: string

record LastState =
  total :: "int option"
  history :: "ScoreEntry list option"

record ClientInfo =
  ws :: ws
  playerID :: string
  name :: "string option"
  location :: "Location option"
  opponentID :: "string option"
  lastState :: "LastState option"

text \<open>
  The payload of an incoming message, at the types the handlers cast its fields to.
  A field that is absent is \<open>None\<close>.
\<close>

record Payload =
  p_name :: "string option"
  p_playerID :: "string option"
  p_opponentID :: "string option"
  p_score :: "int option"
  p_briskCount :: "int option"
  p_points :: "int option"
  p_briskValue :: "int option"
  p_searchTerm :: "string option"
  p_location :: "Location option"
  p_latitude :: "real option"
  p_longitude :: "real option"
  p_total :: "int option"
  p_history :: "ScoreEntry list option"

record Message =
  msg_type :: "string option"
  payload :: "Payload option"

datatype Point = Point (px: "real option") (py: "real option")

record PlayerEntry =
  e_playerID :: string
  e_name :: "string option"
  isOnline :: bool
  e_location :: "Point option"

text \<open>The events the server sends, one constructor per \<open>type\<close> string.\<close>

datatype ServerEvent =
    ConnectionEstablished
  | PlayerIdAssigned string
  | PlayerReconnected string
  | PlayerInvalidId string
  | PlayerNameChanged string string
  | GameAutoJoined string string
  | GameError string
  | GameOpponentScored int string
  | GameApplyBrisks "int option" string
  | GameOpponentUndo "int option" "int option" string
  | GameReset string
  | GameResume string string LastState
  | PlayersList "PlayerEntry list"
  | PlayersSearchResults "PlayerEntry list"
  | PlayerOnline string
  | PlayerOffline string

text \<open>
  What a handler does to the outside: a call of \<open>ws.send\<close> on a socket, or a call of
  \<open>saveUsedIDs\<close> (the asynchronous write of the identifier file).
\<close>

datatype Action = Send ws ServerEvent | SaveUsedIDs

datatype error = UnableToGenerate | TypeError

text \<open>
  The fields of \<open>WSManager\<close>, together with what the runtime holds for it: the
  \<open>ClientInfo\<close> objects (\<open>heap\<close>; the object made for socket \<open>w\<close> lives at address \<open>w\<close>),
  the \<open>readyState\<close> of every socket, and the pending timeouts (\<open>timers\<close>, from handle to the
  identifier its callback closes over). \<open>clients\<close> is an insertion-ordered map, kept as an
  association list of references.
\<close>

record State =
  clients :: "(string \<times> ref) list"
  usedPlayerIDs :: "string list"
  wsToClient :: "ws \<rightharpoonup> ref"
  offlineTimers :: "string \<rightharpoonup> timer"
  lastOnlineBroadcast :: "string \<rightharpoonup> int"
  heap :: "ref \<rightharpoonup> ClientInfo"
  readyState :: "ws \<Rightarrow> ReadyState"
  timers :: "timer \<rightharpoonup> string"
  nextWs :: nat
  nextTimer :: nat

definition OFFLINE_DEBOUNCE_MS :: int where
  "OFFLINE_DEBOUNCE_MS = 2000"

definition ONLINE_BROADCAST_DEBOUNCE_MS :: int where
  "ONLINE_BROADCAST_DEBOUNCE_MS = 1500"

definition initial :: State where
  "initial =
     \<lparr> clients = [], usedPlayerIDs = [], wsToClient = Map.empty,
       offlineTimers = Map.empty, lastOnlineBroadcast = Map.empty, heap = Map.empty,
       readyState = (\<lambda>_. CLOSED), timers = Map.empty, nextWs = 0, nextTimer = 0 \<rparr>"

subsection \<open>Map and Set operations\<close>

definition clients_ref :: "State \<Rightarrow> string \<Rightarrow> ref option" where
  "clients_ref st pid = map_of (clients st) pid"

definition clients_get :: "State \<Rightarrow> string \<Rightarrow> ClientInfo option" where
  "clients_get st pid = (case clients_ref st pid of None \<Rightarrow> None | Some r \<Rightarrow> heap st r)"

definition clients_has :: "State \<Rightarrow> string \<Rightarrow> bool" where
  "clients_has st pid = (clients_ref st pid \<noteq> None)"

definition clients_set :: "string \<Rightarrow> ref \<Rightarrow> State \<Rightarrow> State" where
  "clients_set pid r st = st\<lparr>clients := AList.update pid r (clients st)\<rparr>"

definition clients_delete :: "string \<Rightarrow> State \<Rightarrow> State" where
  "clients_delete pid st = st\<lparr>clients := AList.delete pid (clients st)\<rparr>"

definition clients_entries :: "State \<Rightarrow> (string \<times> ClientInfo) list" where
  "clients_entries st =
     List.map_filter (\<lambda>(pid, r). map_option (Pair pid) (heap st r)) (clients st)"

definition used_add :: "string \<Rightarrow> State \<Rightarrow> State" where
  "used_add pid st =
     (if pid \<in> set (usedPlayerIDs st) then st
      else st\<lparr>usedPlayerIDs := usedPlayerIDs st @ [pid]\<rparr>)"

definition upd_client :: "ref \<Rightarrow> (ClientInfo \<Rightarrow> ClientInfo) \<Rightarrow> State \<Rightarrow> State" where
  "upd_client r f st = st\<lparr>heap := (heap st)(r := map_option f (heap st r))\<rparr>"

definition isOpen :: "State \<Rightarrow> ws \<Rightarrow> bool" where
  "isOpen st w = (readyState st w = OPEN)"

text \<open>\<open>ws.close()\<close>: an open socket starts closing; the \<open>close\<close> event comes later.\<close>

definition ws_close :: "ws \<Rightarrow> State \<Rightarrow> State" where
  "ws_close w st =
     st\<lparr>readyState := (readyState st)(w := (if readyState st w = OPEN then CLOSING else readyState st w))\<rparr>"

subsection \<open>\<open>send\<close> and the presence notifications\<close>

definition send :: "State \<Rightarrow> string \<Rightarrow> ServerEvent \<Rightarrow> Action list" where
  "send st pid ev =
     (case clients_get st pid of
        None \<Rightarrow> []
      | Some client \<Rightarrow> if isOpen st (ws client) then [Send (ws client) ev] else [])"

text \<open>
  The block shared by \<open>sendPlayerOnline\<close>, \<open>sendPlayerOffline\<close> and the name change:
  look the declared opponent of \<open>client\<close> up and, when its socket is open, send to
  \<open>opponent.playerID\<close>.
\<close>

definition notifyOpponent :: "State \<Rightarrow> ClientInfo \<Rightarrow> ServerEvent \<Rightarrow> Action list" where
  "notifyOpponent st client ev =
     (case opponentID client of
        None \<Rightarrow> []
      | Some oid \<Rightarrow>
          if oid = [] then []
          else (case clients_get st oid of
                  None \<Rightarrow> []
                | Some opponent \<Rightarrow>
                    if isOpen st (ws opponent) then send st (playerID opponent) ev else []))"

definition sendPlayerOnline :: "int \<Rightarrow> string \<Rightarrow> State \<Rightarrow> State \<times> Action list" where
  "sendPlayerOnline now pid st =
     (let last = (case lastOnlineBroadcast st pid of None \<Rightarrow> 0 | Some t \<Rightarrow> t) in
      if now - last < ONLINE_BROADCAST_DEBOUNCE_MS then (st, [])
      else
        let st' = st\<lparr>lastOnlineBroadcast := (lastOnlineBroadcast st)(pid \<mapsto> now)\<rparr> in
        (st', case clients_get st' pid of
                None \<Rightarrow> []
              | Some client \<Rightarrow> notifyOpponent st' client (PlayerOnline pid)))"

definition sendPlayerOffline :: "string \<Rightarrow> State \<Rightarrow> Action list" where
  "sendPlayerOffline pid st =
     (case clients_get st pid of
        None \<Rightarrow> []
      | Some client \<Rightarrow> notifyOpponent st client (PlayerOffline pid))"

subsection \<open>\<open>generateUniquePlayerID\<close>\<close>

text \<open>
  \<open>rnd k mod 9000\<close> is the value of \<^verbatim>\<open>Math.floor(Math.random() * 9000)\<close> at draw \<open>k\<close> of
  one call. The loop throws once \<open>attempts\<close> exceeds 1000.
\<close>

function genLoop :: "(nat \<Rightarrow> nat) \<Rightarrow> State \<Rightarrow> nat \<Rightarrow> error + string" where
  "genLoop rnd st attempts =
     (if attempts + 1 > 1000 then Inl UnableToGenerate
      else if toString (rnd attempts mod 9000 + 1000) \<in> set (usedPlayerIDs st)
              \<or> clients_has st (toString (rnd attempts mod 9000 + 1000))
           then genLoop rnd st (attempts + 1)
      else Inr (toString (rnd attempts mod 9000 + 1000)))"
  by pat_completeness auto
termination
  by (relation "measure (\<lambda>(rnd, st, attempts). 1001 - attempts)") auto

declare genLoop.simps [simp del]

definition generateUniquePlayerID ::
  "(nat \<Rightarrow> nat) \<Rightarrow> State \<Rightarrow> error + (string \<times> State \<times> Action list)" where
  "generateUniquePlayerID rnd st =
     (case genLoop rnd st 0 of
        Inl e \<Rightarrow> Inl e
      | Inr pid \<Rightarrow> Inr (pid, used_add pid st, [SaveUsedIDs]))"

subsection \<open>Directory and search\<close>

definition toPoint :: "Location option \<Rightarrow> Point option" where
  "toPoint l = map_option (\<lambda>loc. Point (longitude loc) (latitude loc)) l"

definition getAllPlayers :: "State \<Rightarrow> string option \<Rightarrow> PlayerEntry list" where
  "getAllPlayers st excludePlayerID =
     map (\<lambda>(pid, client).
            \<lparr> e_playerID = pid, e_name = name client,
              isOnline = isOpen st (ws client), e_location = toPoint (location client) \<rparr>)
         (filter (\<lambda>(pid, client). Some pid \<noteq> excludePlayerID) (clients_entries st))"

definition searchEntry :: "State \<Rightarrow> string \<Rightarrow> ClientInfo \<Rightarrow> PlayerEntry" where
  "searchEntry st pid client =
     \<lparr> e_playerID = pid, e_name = Some (orStr (name client) []),
       isOnline = isOpen st (ws client), e_location = toPoint (location client) \<rparr>"

definition matchesTerm :: "string \<Rightarrow> string \<Rightarrow> ClientInfo \<Rightarrow> bool" where
  "matchesTerm lowerSearchTerm pid client =
     (str_includes (toLowerCase pid) lowerSearchTerm
      \<or> str_includes (toLowerCase (orStr (name client) [])) lowerSearchTerm)"

fun searchLoop ::
  "State \<Rightarrow> string \<Rightarrow> string \<Rightarrow> (string \<times> ClientInfo) list \<Rightarrow> PlayerEntry list \<Rightarrow> PlayerEntry list"
where
  "searchLoop st excludePlayerID searchTerm [] results = results"
| "searchLoop st excludePlayerID searchTerm ((pid, client) # rest) results =
     (if pid = excludePlayerID then searchLoop st excludePlayerID searchTerm rest results
      else if is4digit searchTerm \<and> pid = searchTerm
           then searchLoop st excludePlayerID searchTerm rest results
      else if matchesTerm (toLowerCase searchTerm) pid client
           then (if length (results @ [searchEntry st pid client]) \<ge> 5
                 then results @ [searchEntry st pid client]
                 else searchLoop st excludePlayerID searchTerm rest
                        (results @ [searchEntry st pid client]))
      else searchLoop st excludePlayerID searchTerm rest results)"

text \<open>The first block of \<open>searchPlayers\<close>: the exact match, when the term is four digits.\<close>

definition exactMatchFirst :: "State \<Rightarrow> string \<Rightarrow> string \<Rightarrow> PlayerEntry list" where
  "exactMatchFirst st excludePlayerID searchTerm =
     (if is4digit searchTerm
      then (case clients_get st searchTerm of
              None \<Rightarrow> []
            | Some exactMatch \<Rightarrow>
                if searchTerm \<noteq> excludePlayerID then [searchEntry st searchTerm exactMatch] else [])
      else [])"

definition searchPlayers :: "State \<Rightarrow> string \<Rightarrow> string \<Rightarrow> PlayerEntry list" where
  "searchPlayers st excludePlayerID searchTerm =
     searchLoop st excludePlayerID searchTerm (clients_entries st)
       (exactMatchFirst st excludePlayerID searchTerm)"

section \<open>The message handlers (\<open>handleMessage\<close>)\<close>

definition wsToClient_get :: "State \<Rightarrow> ws \<Rightarrow> (ref \<times> ClientInfo) option" where
  "wsToClient_get st w =
     (case wsToClient st w of None \<Rightarrow> None | Some r \<Rightarrow> map_option (Pair r) (heap st r))"

definition wsToClient_delete :: "ws \<Rightarrow> State \<Rightarrow> State" where
  "wsToClient_delete w st = st\<lparr>wsToClient := (wsToClient st)(w := None)\<rparr>"

definition wsToClient_set :: "ws \<Rightarrow> ref \<Rightarrow> State \<Rightarrow> State" where
  "wsToClient_set w r st = st\<lparr>wsToClient := (wsToClient st)(w \<mapsto> r)\<rparr>"

text \<open>
  \<^verbatim>\<open>const prev = this.clients.get(id); if (prev && prev.ws !== ws) { prev.ws.close();
  this.wsToClient.delete(prev.ws); }\<close>
\<close>

definition closePrev :: "ws \<Rightarrow> string \<Rightarrow> State \<Rightarrow> State" where
  "closePrev w pid st =
     (case clients_get st pid of
        None \<Rightarrow> st
      | Some prev \<Rightarrow>
          if ws prev \<noteq> w then wsToClient_delete (ws prev) (ws_close (ws prev) st) else st)"

definition plField :: "Payload option \<Rightarrow> (Payload \<Rightarrow> 'a option) \<Rightarrow> 'a option" where
  "plField pl f = (case pl of None \<Rightarrow> None | Some p \<Rightarrow> f p)"

definition handle_request_id ::
  "ws \<Rightarrow> ref \<Rightarrow> Payload option \<Rightarrow> int \<Rightarrow> (nat \<Rightarrow> nat) \<Rightarrow> State \<Rightarrow> error + State \<times> Action list"
where
  "handle_request_id w r pl now rnd st =
     (case generateUniquePlayerID rnd st of
        Inl e \<Rightarrow> Inl e
      | Inr (newPlayerID, st1, saved) \<Rightarrow>
          let st2 = upd_client r
                      (\<lambda>c. c\<lparr>playerID := newPlayerID,
                              name := Some (orStr (plField pl p_name) (''Player '' @ newPlayerID))\<rparr>)
                      st1;
              st3 = closePrev w newPlayerID st2;
              st4 = clients_set newPlayerID r st3;
              st5 = wsToClient_set w r st4;
              online = sendPlayerOnline now newPlayerID st5
          in Inr (fst online, saved @ [Send w (PlayerIdAssigned newPlayerID)] @ snd online))"

definition cancelOffline :: "string \<Rightarrow> State \<Rightarrow> State" where
  "cancelOffline pid st =
     (case offlineTimers st pid of
        None \<Rightarrow> st
      | Some pending \<Rightarrow>
          st\<lparr>timers := (timers st)(pending := None),
             offlineTimers := (offlineTimers st)(pid := None)\<rparr>)"

definition resumeOpponent :: "State \<Rightarrow> ref \<Rightarrow> string \<Rightarrow> Action list" where
  "resumeOpponent st r existingPlayerID =
     (case heap st r of
        None \<Rightarrow> []
      | Some client \<Rightarrow>
          (case lastState client of
             None \<Rightarrow> []
           | Some gameState \<Rightarrow>
               (case opponentID client of
                  None \<Rightarrow> []
                | Some oid \<Rightarrow>
                    if oid = [] then []
                    else (case clients_get st oid of
                            None \<Rightarrow> []
                          | Some opponent \<Rightarrow>
                              if isOpen st (ws opponent)
                              then send st oid
                                     (GameResume existingPlayerID (orStr (name client) []) gameState)
                              else []))))"

definition validID :: "string option \<Rightarrow> bool" where
  "validID i = (case i of None \<Rightarrow> False | Some v \<Rightarrow> v \<noteq> [] \<and> is4digit v)"

definition handle_reconnect ::
  "ws \<Rightarrow> ref \<Rightarrow> Payload option \<Rightarrow> int \<Rightarrow> State \<Rightarrow> State \<times> Action list"
where
  "handle_reconnect w r pl now st =
     (case plField pl p_playerID of
        None \<Rightarrow> (st, [Send w (PlayerInvalidId ''Invalid player ID format'')])
      | Some existingPlayerID \<Rightarrow>
          if validID (Some existingPlayerID) then
            let st1 = cancelOffline existingPlayerID st;
                st2 = closePrev w existingPlayerID st1;
                st3 = upd_client r
                        (\<lambda>c. c\<lparr>playerID := existingPlayerID,
                                name := Some (orStr (plField pl p_name)
                                                (''Player '' @ existingPlayerID))\<rparr>)
                        st2;
                st4 = clients_set existingPlayerID r st3;
                st5 = wsToClient_set w r st4;
                st6 = used_add existingPlayerID st5;
                online = sendPlayerOnline now existingPlayerID st6
            in (fst online,
                [SaveUsedIDs, Send w (PlayerReconnected existingPlayerID)] @ snd online
                  @ resumeOpponent (fst online) r existingPlayerID)
          else (st, [Send w (PlayerInvalidId ''Invalid player ID format'')]))"

definition handle_update_name :: "ref \<Rightarrow> Payload option \<Rightarrow> State \<Rightarrow> State \<times> Action list" where
  "handle_update_name r pl st =
     (let st1 = upd_client r
                  (\<lambda>c. c\<lparr>name := Some (orStr (plField pl p_name) (orStr (name c) []))\<rparr>) st
      in (st1,
          case heap st1 r of
            None \<Rightarrow> []
          | Some client \<Rightarrow>
              notifyOpponent st1 client
                (PlayerNameChanged (playerID client) (orStr (name client) []))))"

definition handle_state_update :: "ref \<Rightarrow> Payload option \<Rightarrow> State \<Rightarrow> State \<times> Action list" where
  "handle_state_update r pl st =
     (upd_client r
        (\<lambda>c. c\<lparr>name := (if truthy (plField pl p_name) then plField pl p_name else name c),
                location := (case plField pl p_location of
                               None \<Rightarrow> location c | Some l \<Rightarrow> Some l),
                opponentID := (if truthy (plField pl p_opponentID)
                               then plField pl p_opponentID else opponentID c),
                lastState := Some \<lparr>total = plField pl p_total,
                                   history = plField pl p_history\<rparr>\<rparr>)
        st, [])"

definition handle_update_location :: "ref \<Rightarrow> Payload option \<Rightarrow> State \<Rightarrow> State \<times> Action list" where
  "handle_update_location r pl st =
     (upd_client r
        (\<lambda>c. c\<lparr>location :=
                  map_option (\<lambda>p. \<lparr>latitude = p_latitude p, longitude = p_longitude p\<rparr>) pl\<rparr>)
        st, [])"

definition handle_game_start ::
  "ws \<Rightarrow> ref \<Rightarrow> ClientInfo \<Rightarrow> Payload option \<Rightarrow> State \<Rightarrow> State \<times> Action list"
where
  "handle_game_start w r client pl st =
     (case plField pl p_opponentID of
        None \<Rightarrow> (st, [Send w (GameError ''Cannot start a game with yourself'')])
      | Some oid \<Rightarrow>
          if oid = [] \<or> oid = playerID client
          then (st, [Send w (GameError ''Cannot start a game with yourself'')])
          else (case clients_ref st oid of
                  None \<Rightarrow> (st, [])
                | Some ro \<Rightarrow>
                    (case heap st ro of
                       None \<Rightarrow> (st, [])
                     | Some opponent \<Rightarrow>
                         let st1 = upd_client r (\<lambda>c. c\<lparr>opponentID := Some oid\<rparr>) st;
                             st2 = upd_client ro
                                     (\<lambda>c. c\<lparr>opponentID := Some (playerID client)\<rparr>) st1
                         in (st2,
                             send st2 (playerID client)
                               (GameAutoJoined oid (orStr (name opponent) []))
                             @ send st2 oid
                                 (GameAutoJoined (playerID client) (orStr (name client) []))))))"

definition handle_score_update :: "ClientInfo \<Rightarrow> Payload option \<Rightarrow> State \<Rightarrow> State \<times> Action list" where
  "handle_score_update client pl st =
     (case plField pl p_opponentID of
        None \<Rightarrow> (st, [])
      | Some targetOpponentID \<Rightarrow>
          if targetOpponentID = [] then (st, [])
          else (st, send st targetOpponentID
                      (GameOpponentScored
                         (case plField pl p_score of None \<Rightarrow> 0 | Some s \<Rightarrow> s)
                         (playerID client))))"

text \<open>
  The three forwarding kinds share their shape: drop when the target is missing or is the
  sender, look the target up, forward when its socket is open.
\<close>

definition forwardTo ::
  "ClientInfo \<Rightarrow> string option \<Rightarrow> ServerEvent \<Rightarrow> State \<Rightarrow> State \<times> Action list"
where
  "forwardTo client targetOpponentID ev st =
     (case targetOpponentID of
        None \<Rightarrow> (st, [])
      | Some tid \<Rightarrow>
          if tid = [] \<or> tid = playerID client then (st, [])
          else (case clients_get st tid of
                  None \<Rightarrow> (st, [])
                | Some target \<Rightarrow>
                    if isOpen st (ws target) then (st, send st tid ev) else (st, [])))"

definition handle_apply_brisks ::
  "ClientInfo \<Rightarrow> Payload option \<Rightarrow> State \<Rightarrow> error + State \<times> Action list"
where
  "handle_apply_brisks client pl st =
     (case pl of
        None \<Rightarrow> Inl TypeError
      | Some p \<Rightarrow>
          Inr (forwardTo client (p_opponentID p)
                 (GameApplyBrisks (p_briskCount p) (playerID client)) st))"

definition handle_opponent_undo ::
  "ClientInfo \<Rightarrow> Payload option \<Rightarrow> State \<Rightarrow> error + State \<times> Action list"
where
  "handle_opponent_undo client pl st =
     (case pl of
        None \<Rightarrow> Inl TypeError
      | Some p \<Rightarrow>
          Inr (forwardTo client (p_opponentID p)
                 (GameOpponentUndo (p_points p) (p_briskValue p) (playerID client)) st))"

definition handle_reset :: "ClientInfo \<Rightarrow> Payload option \<Rightarrow> State \<Rightarrow> State \<times> Action list" where
  "handle_reset client pl st =
     forwardTo client (plField pl p_opponentID) (GameReset (playerID client)) st"

definition handle_get_all :: "ClientInfo \<Rightarrow> State \<Rightarrow> State \<times> Action list" where
  "handle_get_all client st =
     (st, send st (playerID client)
            (PlayersList
               (map (\<lambda>p. p\<lparr>e_name := Some (orStr (e_name p) [])\<rparr>)
                  (getAllPlayers st (Some (playerID client))))))"

definition handle_search :: "ClientInfo \<Rightarrow> Payload option \<Rightarrow> State \<Rightarrow> State \<times> Action list" where
  "handle_search client pl st =
     (case plField pl p_searchTerm of
        None \<Rightarrow> (st, send st (playerID client) (PlayersSearchResults []))
      | Some searchTerm \<Rightarrow>
          if searchTerm = [] \<or> trim searchTerm = []
          then (st, send st (playerID client) (PlayersSearchResults []))
          else (st, send st (playerID client)
                      (PlayersSearchResults
                         (searchPlayers st (playerID client) (trim searchTerm)))))"

datatype Kind =
    RequestId | Reconnect | UpdateName | StateUpdate | UpdateLocation | GameStart
  | ScoreUpdate | ApplyBrisks | OpponentUndo | Reset | GetAll | Search | Unknown

text \<open>The \<open>case\<close> labels of the \<open>switch\<close>, in the order of the source.\<close>

definition kindOf :: "string \<Rightarrow> Kind" where
  "kindOf typeStr =
     (if typeStr = ''player:request_id'' then RequestId
      else if typeStr = ''player:reconnect'' then Reconnect
      else if typeStr = ''player:update_name'' then UpdateName
      else if typeStr = ''player:state_update'' then StateUpdate
      else if typeStr = ''player:update_location'' then UpdateLocation
      else if typeStr = ''game:start'' then GameStart
      else if typeStr = ''game:score_update'' then ScoreUpdate
      else if typeStr = ''game:apply_brisks'' then ApplyBrisks
      else if typeStr = ''game:opponent_undo'' then OpponentUndo
      else if typeStr = ''game:reset'' then Reset
      else if typeStr = ''players:get_all'' then GetAll
      else if typeStr = ''players:search'' then Search
      else Unknown)"

definition handleMessage ::
  "ws \<Rightarrow> Message \<Rightarrow> int \<Rightarrow> (nat \<Rightarrow> nat) \<Rightarrow> State \<Rightarrow> error + State \<times> Action list"
where
  "handleMessage w message now rnd st =
     (case wsToClient_get st w of
        None \<Rightarrow> Inr (st, [])
      | Some (r, client) \<Rightarrow>
          (case kindOf (case msg_type message of None \<Rightarrow> [] | Some t \<Rightarrow> t) of
             RequestId \<Rightarrow> handle_request_id w r (payload message) now rnd st
           | Reconnect \<Rightarrow> Inr (handle_reconnect w r (payload message) now st)
           | UpdateName \<Rightarrow> Inr (handle_update_name r (payload message) st)
           | StateUpdate \<Rightarrow> Inr (handle_state_update r (payload message) st)
           | UpdateLocation \<Rightarrow> Inr (handle_update_location r (payload message) st)
           | GameStart \<Rightarrow> Inr (handle_game_start w r client (payload message) st)
           | ScoreUpdate \<Rightarrow> Inr (handle_score_update client (payload message) st)
           | ApplyBrisks \<Rightarrow> handle_apply_brisks client (payload message) st
           | OpponentUndo \<Rightarrow> handle_opponent_undo client (payload message) st
           | Reset \<Rightarrow> Inr (handle_reset client (payload message) st)
           | GetAll \<Rightarrow> Inr (handle_get_all client st)
           | Search \<Rightarrow> Inr (handle_search client (payload message) st)
           | Unknown \<Rightarrow> Inr (st, [])))"

section \<open>Connections, closes and timers (\<open>onConnection\<close>)\<close>

text \<open>
  \<open>stamp\<close> is the text of \<^verbatim>\<open>${Date.now()}_${Math.random()}\<close>. The new socket is the next
  unused one, and it is open.
\<close>

definition onConnection :: "string \<Rightarrow> State \<Rightarrow> State \<times> Action list" where
  "onConnection stamp st =
     (let w = nextWs st;
          clientInfo = \<lparr> ws = w, playerID = ''temp_'' @ stamp, name = Some ''Unknown Player'',
                         location = None, opponentID = None, lastState = None \<rparr>
      in (st\<lparr>nextWs := w + 1,
             readyState := (readyState st)(w := OPEN),
             heap := (heap st)(w \<mapsto> clientInfo),
             wsToClient := (wsToClient st)(w \<mapsto> w)\<rparr>,
          [Send w ConnectionEstablished]))"

text \<open>\<open>setTimeout\<close> of the offline callback for \<open>pid\<close>, and \<open>offlineTimers.set\<close>.\<close>

definition scheduleOffline :: "string \<Rightarrow> State \<Rightarrow> State" where
  "scheduleOffline pid st =
     st\<lparr>timers := (timers st)(nextTimer st \<mapsto> pid),
        offlineTimers := (offlineTimers st)(pid \<mapsto> nextTimer st),
        nextTimer := nextTimer st + 1\<rparr>"

text \<open>The callback given to \<open>setTimeout\<close> (the same in both branches of the close handler).\<close>

definition offlineExpired :: "string \<Rightarrow> State \<Rightarrow> State \<times> Action list" where
  "offlineExpired pid st =
     (let st1 = clients_delete pid st;
          st2 = st1\<lparr>offlineTimers := (offlineTimers st1)(pid := None)\<rparr>;
          st3 = st2\<lparr>lastOnlineBroadcast := (lastOnlineBroadcast st2)(pid := None)\<rparr>
      in (st3, sendPlayerOffline pid st3))"

definition onClose :: "ws \<Rightarrow> State \<Rightarrow> State" where
  "onClose w st =
     (case wsToClient_get st w of
        Some (r, client) \<Rightarrow>
          let st1 = wsToClient_delete w st in
          if \<not> startsWith (playerID client) ''temp_'' \<and> clients_has st1 (playerID client)
          then (case clients_get st1 (playerID client) of
                  None \<Rightarrow> st1
                | Some existing \<Rightarrow>
                    if ws existing = w then scheduleOffline (playerID client) st1 else st1)
          else st1
      | None \<Rightarrow>
          (case find (\<lambda>(pid, c). ws c = w) (clients_entries st) of
             None \<Rightarrow> st
           | Some (pid, c) \<Rightarrow> scheduleOffline pid st))"

section \<open>The event loop\<close>

text \<open>
  One event of the Node.js event loop, as the manager sees it. A socket gets no \<open>message\<close>
  after its \<open>close\<close> event and only one \<open>close\<close> event; a timeout runs its callback only
  while it is pending (not cleared, not yet run). \<open>Closing\<close> is the transport leaving the
  open state before the \<open>close\<close> event is delivered. \<open>Loaded\<close> is the end of \<open>loadUsedIDs\<close>.
\<close>

datatype Event =
    Connect string
  | Receive ws Message int "nat \<Rightarrow> nat"
  | Closing ws
  | Close ws
  | Timeout timer
  | Loaded "string list"

definition step :: "State \<Rightarrow> Event \<Rightarrow> State \<times> Action list" where
  "step st e =
     (case e of
        Connect stamp \<Rightarrow> onConnection stamp st
      | Receive w message now rnd \<Rightarrow>
          if w < nextWs st \<and> readyState st w \<noteq> CLOSED
          then (case handleMessage w message now rnd st of
                  Inl err \<Rightarrow> (st, [])
                | Inr res \<Rightarrow> res)
          else (st, [])
      | Closing w \<Rightarrow>
          if w < nextWs st then (ws_close w st, []) else (st, [])
      | Close w \<Rightarrow>
          if w < nextWs st \<and> readyState st w \<noteq> CLOSED
          then (onClose w (st\<lparr>readyState := (readyState st)(w := CLOSED)\<rparr>), [])
          else (st, [])
      | Timeout h \<Rightarrow>
          (case timers st h of
             None \<Rightarrow> (st, [])
           | Some pid \<Rightarrow> offlineExpired pid (st\<lparr>timers := (timers st)(h := None)\<rparr>))
      | Loaded ids \<Rightarrow> (fold used_add ids st, []))"

fun run :: "State \<Rightarrow> Event list \<Rightarrow> State \<times> Action list" where
  "run st [] = (st, [])"
| "run st (e # es) =
     (case step st e of (st1, out1) \<Rightarrow> (case run st1 es of (st2, out2) \<Rightarrow> (st2, out1 @ out2)))"

inductive reachable :: "State \<Rightarrow> bool" where
  reachable_initial: "reachable initial"
| reachable_step: "reachable st \<Longrightarrow> reachable (fst (step st e))"


text \<open>
  The socket of the declared opponent of \<open>pid\<close>, when there is one to notify: \<open>pid\<close> is a
  key of the live-session map, its session declares an opponent, the opponent is a key of
  the map, and the opponent's socket is open.
\<close>

definition reachableOpponent :: "State \<Rightarrow> string \<Rightarrow> ws option" where
  "reachableOpponent st pid =
     (case clients_get st pid of
        None \<Rightarrow> None
      | Some client \<Rightarrow>
          (case opponentID client of
             None \<Rightarrow> None
           | Some oid \<Rightarrow>
               if oid = [] then None
               else (case clients_get st oid of
                       None \<Rightarrow> None
                     | Some opponent \<Rightarrow>
                         if isOpen st (ws opponent) then Some (ws opponent) else None)))"

section \<open>The invariant of the reachable states\<close>

text \<open>
  \<open>invHeap\<close>: the session object at address \<open>r\<close> belongs to socket \<open>r\<close>, a socket that has
  connected. \<open>invReg\<close>: a registered socket maps to its own session and has not had its
  \<open>close\<close> event. \<open>invClients\<close>: the live-session map holds no dangling reference.
  \<open>invBound\<close>: a registered socket whose session carries an assigned identifier is the
  holder of that identifier in the live-session map. \<open>invTimers\<close>: a pending timeout is the
  one registered for its identifier, and the holder of that identifier is a socket that has
  closed. \<open>invOpen\<close>: a session of the live-session map whose socket is open is stored
  under the identifier it carries. \<open>invKeys\<close>: the association list has one entry per key.
\<close>

definition invHeap :: "State \<Rightarrow> bool" where
  "invHeap st \<longleftrightarrow> (\<forall>r c. heap st r = Some c \<longrightarrow> ws c = r \<and> r < nextWs st)"

definition invReg :: "State \<Rightarrow> bool" where
  "invReg st \<longleftrightarrow>
     (\<forall>w r. wsToClient st w = Some r \<longrightarrow> r = w \<and> heap st w \<noteq> None \<and> readyState st w \<noteq> CLOSED)"

definition invClients :: "State \<Rightarrow> bool" where
  "invClients st \<longleftrightarrow> (\<forall>pid r. clients_ref st pid = Some r \<longrightarrow> heap st r \<noteq> None)"

definition invBound :: "State \<Rightarrow> bool" where
  "invBound st \<longleftrightarrow>
     (\<forall>w c. wsToClient st w = Some w \<and> heap st w = Some c
            \<and> \<not> startsWith (playerID c) ''temp_''
        \<longrightarrow> clients_ref st (playerID c) = Some w)"

definition invTimers :: "State \<Rightarrow> bool" where
  "invTimers st \<longleftrightarrow>
     (\<forall>h pid. timers st h = Some pid \<longrightarrow>
        h < nextTimer st \<and> offlineTimers st pid = Some h
        \<and> (\<exists>r. clients_ref st pid = Some r \<and> readyState st r = CLOSED))"

definition invOpen :: "State \<Rightarrow> bool" where
  "invOpen st \<longleftrightarrow>
     (\<forall>pid r c. clients_ref st pid = Some r \<and> heap st r = Some c \<and> readyState st r = OPEN
        \<longrightarrow> clients_ref st (playerID c) = Some r)"

definition invKeys :: "State \<Rightarrow> bool" where
  "invKeys st \<longleftrightarrow> distinct (map fst (clients st))"

definition invariant :: "State \<Rightarrow> bool" where
  "invariant st \<longleftrightarrow>
     invHeap st \<and> invReg st \<and> invClients st \<and> invBound st \<and> invTimers st \<and> invOpen st
     \<and> invKeys st"

text \<open>
  A socket \<open>w\<close> is bound to the identifier \<open>pid\<close>: it is registered, its session carries
  \<open>pid\<close>, the live-session map holds that very session under \<open>pid\<close>, and the socket
  is open.
\<close>

definition bound :: "State \<Rightarrow> ws \<Rightarrow> string \<Rightarrow> bool" where
  "bound st w pid =
     (case wsToClient_get st w of
        None \<Rightarrow> False
      | Some (r, client) \<Rightarrow>
          playerID client = pid \<and> ws client = w \<and> clients_ref st pid = Some r \<and> isOpen st w)"
section \<open>Concrete runs\<close>

text \<open>Inputs and small runs of the server on which the theorems below are exercised.\<close>

definition rnd0 :: "nat \<Rightarrow> nat" where
  "rnd0 k = 234"

definition emptyPayload :: Payload where
  "emptyPayload =
     \<lparr> p_name = None, p_playerID = None, p_opponentID = None, p_score = None,
       p_briskCount = None, p_points = None, p_briskValue = None, p_searchTerm = None,
       p_location = None, p_latitude = None, p_longitude = None, p_total = None,
       p_history = None \<rparr>"

definition reconnectMsg :: "string \<Rightarrow> Message" where
  "reconnectMsg pid =
     \<lparr> msg_type = Some ''player:reconnect'',
       payload = Some (emptyPayload\<lparr>p_playerID := Some pid\<rparr>) \<rparr>"

definition toOpponent :: "string \<Rightarrow> Payload" where
  "toOpponent oid = emptyPayload\<lparr>p_opponentID := Some oid\<rparr>"

text \<open>Two sockets, reconnected as 1111 and 2222.\<close>

definition two_players :: State where
  "two_players =
     fst (run initial
            [Connect ''a'', Receive 0 (reconnectMsg ''1111'') 5000 rnd0,
             Connect ''b'', Receive 1 (reconnectMsg ''2222'') 6000 rnd0])"

text \<open>A third socket connects and keeps its placeholder identity \<open>temp_c\<close>.\<close>

definition with_guest :: State where
  "with_guest = fst (step two_players (Connect ''c''))"

definition guest :: ClientInfo where
  "guest = \<lparr> ws = 2, playerID = ''temp_c'', name = Some ''Unknown Player'',
              location = None, opponentID = None, lastState = None \<rparr>"

text \<open>The socket of 2222 has closed; its offline timer is pending.\<close>

definition closed_peer :: State where
  "closed_peer = fst (step two_players (Close 1))"

definition getAllMsg :: Message where
  "getAllMsg = \<lparr> msg_type = Some ''players:get_all'', payload = None \<rparr>"

text \<open>Three sockets, reconnected as 3333, 3344 and 5555.\<close>

definition three_players :: State where
  "three_players =
     fst (run initial
            [Connect ''a'', Receive 0 (reconnectMsg ''3333'') 5000 rnd0,
             Connect ''b'', Receive 1 (reconnectMsg ''3344'') 6000 rnd0,
             Connect ''c'', Receive 2 (reconnectMsg ''5555'') 7000 rnd0])"


text \<open>1111 and 2222 bound, then paired by \<open>game:start\<close> from 1111.\<close>

definition paired :: State where
  "paired =
     fst (step two_players
            (Receive 0 \<lparr>msg_type = Some ''game:start'', payload = Some (toOpponent ''2222'')\<rparr>
               6500 rnd0))"

text \<open>
  In the paired state the socket of 2222 closes (its offline timer 0 is pending), then a new
  socket connects.
\<close>

definition paired_closed :: State where
  "paired_closed = fst (step paired (Close 1))"

definition paired_closed_guest :: State where
  "paired_closed_guest = fst (step paired_closed (Connect ''c''))"
section \<open>Field equations of the state operations\<close>

lemma upd_client_fields [simp]:
  "clients (upd_client r f st) = clients st"
  "usedPlayerIDs (upd_client r f st) = usedPlayerIDs st"
  "wsToClient (upd_client r f st) = wsToClient st"
  "offlineTimers (upd_client r f st) = offlineTimers st"
  "lastOnlineBroadcast (upd_client r f st) = lastOnlineBroadcast st"
  "heap (upd_client r f st) = (heap st)(r := map_option f (heap st r))"
  "readyState (upd_client r f st) = readyState st"
  "timers (upd_client r f st) = timers st"
  "nextWs (upd_client r f st) = nextWs st"
  "nextTimer (upd_client r f st) = nextTimer st"
  by (simp_all add: upd_client_def)

lemma clients_set_fields [simp]:
  "clients (clients_set pid r st) = AList.update pid r (clients st)"
  "usedPlayerIDs (clients_set pid r st) = usedPlayerIDs st"
  "wsToClient (clients_set pid r st) = wsToClient st"
  "offlineTimers (clients_set pid r st) = offlineTimers st"
  "lastOnlineBroadcast (clients_set pid r st) = lastOnlineBroadcast st"
  "heap (clients_set pid r st) = heap st"
  "readyState (clients_set pid r st) = readyState st"
  "timers (clients_set pid r st) = timers st"
  "nextWs (clients_set pid r st) = nextWs st"
  "nextTimer (clients_set pid r st) = nextTimer st"
  by (simp_all add: clients_set_def)

lemma clients_delete_fields [simp]:
  "clients (clients_delete pid st) = AList.delete pid (clients st)"
  "usedPlayerIDs (clients_delete pid st) = usedPlayerIDs st"
  "wsToClient (clients_delete pid st) = wsToClient st"
  "offlineTimers (clients_delete pid st) = offlineTimers st"
  "lastOnlineBroadcast (clients_delete pid st) = lastOnlineBroadcast st"
  "heap (clients_delete pid st) = heap st"
  "readyState (clients_delete pid st) = readyState st"
  "timers (clients_delete pid st) = timers st"
  "nextWs (clients_delete pid st) = nextWs st"
  "nextTimer (clients_delete pid st) = nextTimer st"
  by (simp_all add: clients_delete_def)

lemma wsToClient_set_fields [simp]:
  "clients (wsToClient_set w r st) = clients st"
  "usedPlayerIDs (wsToClient_set w r st) = usedPlayerIDs st"
  "wsToClient (wsToClient_set w r st) = (wsToClient st)(w \<mapsto> r)"
  "offlineTimers (wsToClient_set w r st) = offlineTimers st"
  "lastOnlineBroadcast (wsToClient_set w r st) = lastOnlineBroadcast st"
  "heap (wsToClient_set w r st) = heap st"
  "readyState (wsToClient_set w r st) = readyState st"
  "timers (wsToClient_set w r st) = timers st"
  "nextWs (wsToClient_set w r st) = nextWs st"
  "nextTimer (wsToClient_set w r st) = nextTimer st"
  by (simp_all add: wsToClient_set_def)

lemma wsToClient_delete_fields [simp]:
  "clients (wsToClient_delete w st) = clients st"
  "usedPlayerIDs (wsToClient_delete w st) = usedPlayerIDs st"
  "wsToClient (wsToClient_delete w st) = (wsToClient st)(w := None)"
  "offlineTimers (wsToClient_delete w st) = offlineTimers st"
  "lastOnlineBroadcast (wsToClient_delete w st) = lastOnlineBroadcast st"
  "heap (wsToClient_delete w st) = heap st"
  "readyState (wsToClient_delete w st) = readyState st"
  "timers (wsToClient_delete w st) = timers st"
  "nextWs (wsToClient_delete w st) = nextWs st"
  "nextTimer (wsToClient_delete w st) = nextTimer st"
  by (simp_all add: wsToClient_delete_def)

lemma ws_close_fields [simp]:
  "clients (ws_close w st) = clients st"
  "usedPlayerIDs (ws_close w st) = usedPlayerIDs st"
  "wsToClient (ws_close w st) = wsToClient st"
  "offlineTimers (ws_close w st) = offlineTimers st"
  "lastOnlineBroadcast (ws_close w st) = lastOnlineBroadcast st"
  "heap (ws_close w st) = heap st"
  "readyState (ws_close w st) =
     (readyState st)(w := (if readyState st w = OPEN then CLOSING else readyState st w))"
  "timers (ws_close w st) = timers st"
  "nextWs (ws_close w st) = nextWs st"
  "nextTimer (ws_close w st) = nextTimer st"
  by (simp_all add: ws_close_def)

lemma used_add_fields [simp]:
  "clients (used_add pid st) = clients st"
  "set (usedPlayerIDs (used_add pid st)) = insert pid (set (usedPlayerIDs st))"
  "wsToClient (used_add pid st) = wsToClient st"
  "offlineTimers (used_add pid st) = offlineTimers st"
  "lastOnlineBroadcast (used_add pid st) = lastOnlineBroadcast st"
  "heap (used_add pid st) = heap st"
  "readyState (used_add pid st) = readyState st"
  "timers (used_add pid st) = timers st"
  "nextWs (used_add pid st) = nextWs st"
  "nextTimer (used_add pid st) = nextTimer st"
  by (auto simp add: used_add_def)

lemma cancelOffline_fields [simp]:
  "clients (cancelOffline pid st) = clients st"
  "usedPlayerIDs (cancelOffline pid st) = usedPlayerIDs st"
  "wsToClient (cancelOffline pid st) = wsToClient st"
  "offlineTimers (cancelOffline pid st) = (offlineTimers st)(pid := None)"
  "lastOnlineBroadcast (cancelOffline pid st) = lastOnlineBroadcast st"
  "heap (cancelOffline pid st) = heap st"
  "readyState (cancelOffline pid st) = readyState st"
  "timers (cancelOffline pid st) =
     (case offlineTimers st pid of None \<Rightarrow> timers st | Some h \<Rightarrow> (timers st)(h := None))"
  "nextWs (cancelOffline pid st) = nextWs st"
  "nextTimer (cancelOffline pid st) = nextTimer st"
  by (auto simp add: cancelOffline_def split: option.splits)

lemma scheduleOffline_fields [simp]:
  "clients (scheduleOffline pid st) = clients st"
  "usedPlayerIDs (scheduleOffline pid st) = usedPlayerIDs st"
  "wsToClient (scheduleOffline pid st) = wsToClient st"
  "offlineTimers (scheduleOffline pid st) = (offlineTimers st)(pid \<mapsto> nextTimer st)"
  "lastOnlineBroadcast (scheduleOffline pid st) = lastOnlineBroadcast st"
  "heap (scheduleOffline pid st) = heap st"
  "readyState (scheduleOffline pid st) = readyState st"
  "timers (scheduleOffline pid st) = (timers st)(nextTimer st \<mapsto> pid)"
  "nextWs (scheduleOffline pid st) = nextWs st"
  "nextTimer (scheduleOffline pid st) = nextTimer st + 1"
  by (simp_all add: scheduleOffline_def)

lemma sendPlayerOnline_fields [simp]:
  "clients (fst (sendPlayerOnline now pid st)) = clients st"
  "usedPlayerIDs (fst (sendPlayerOnline now pid st)) = usedPlayerIDs st"
  "wsToClient (fst (sendPlayerOnline now pid st)) = wsToClient st"
  "offlineTimers (fst (sendPlayerOnline now pid st)) = offlineTimers st"
  "heap (fst (sendPlayerOnline now pid st)) = heap st"
  "readyState (fst (sendPlayerOnline now pid st)) = readyState st"
  "timers (fst (sendPlayerOnline now pid st)) = timers st"
  "nextWs (fst (sendPlayerOnline now pid st)) = nextWs st"
  "nextTimer (fst (sendPlayerOnline now pid st)) = nextTimer st"
  by (simp_all add: sendPlayerOnline_def Let_def)

lemma closePrev_fields [simp]:
  "clients (closePrev w pid st) = clients st"
  "usedPlayerIDs (closePrev w pid st) = usedPlayerIDs st"
  "offlineTimers (closePrev w pid st) = offlineTimers st"
  "lastOnlineBroadcast (closePrev w pid st) = lastOnlineBroadcast st"
  "heap (closePrev w pid st) = heap st"
  "timers (closePrev w pid st) = timers st"
  "nextWs (closePrev w pid st) = nextWs st"
  "nextTimer (closePrev w pid st) = nextTimer st"
  by (simp_all add: closePrev_def split: option.splits)

lemma clients_ref_simps [simp]:
  "clients_ref (upd_client r f st) = clients_ref st"
  "clients_ref (clients_set pid r st) = (clients_ref st)(pid \<mapsto> r)"
  "clients_ref (clients_delete pid st) = (clients_ref st)(pid := None)"
  "clients_ref (wsToClient_set w r st) = clients_ref st"
  "clients_ref (wsToClient_delete w st) = clients_ref st"
  "clients_ref (ws_close w st) = clients_ref st"
  "clients_ref (used_add pid st) = clients_ref st"
  "clients_ref (cancelOffline pid st) = clients_ref st"
  "clients_ref (scheduleOffline pid st) = clients_ref st"
  "clients_ref (closePrev w pid st) = clients_ref st"
  "clients_ref (fst (sendPlayerOnline now pid st)) = clients_ref st"
  by (simp_all add: clients_ref_def fun_eq_iff update_conv' delete_conv')

lemma clients_ref_updates [simp]:
  "clients_ref (st\<lparr>usedPlayerIDs := u\<rparr>) = clients_ref st"
  "clients_ref (st\<lparr>wsToClient := m\<rparr>) = clients_ref st"
  "clients_ref (st\<lparr>offlineTimers := ot\<rparr>) = clients_ref st"
  "clients_ref (st\<lparr>lastOnlineBroadcast := lb\<rparr>) = clients_ref st"
  "clients_ref (st\<lparr>heap := hp\<rparr>) = clients_ref st"
  "clients_ref (st\<lparr>readyState := rs\<rparr>) = clients_ref st"
  "clients_ref (st\<lparr>timers := tm\<rparr>) = clients_ref st"
  "clients_ref (st\<lparr>nextWs := n\<rparr>) = clients_ref st"
  "clients_ref (st\<lparr>nextTimer := n\<rparr>) = clients_ref st"
  by (simp_all add: clients_ref_def fun_eq_iff)

lemma clients_get_updates [simp]:
  "clients_get (st\<lparr>usedPlayerIDs := u\<rparr>) = clients_get st"
  "clients_get (st\<lparr>wsToClient := m\<rparr>) = clients_get st"
  "clients_get (st\<lparr>offlineTimers := ot\<rparr>) = clients_get st"
  "clients_get (st\<lparr>lastOnlineBroadcast := lb\<rparr>) = clients_get st"
  "clients_get (st\<lparr>readyState := rs\<rparr>) = clients_get st"
  "clients_get (st\<lparr>timers := tm\<rparr>) = clients_get st"
  "clients_get (st\<lparr>nextWs := n\<rparr>) = clients_get st"
  "clients_get (st\<lparr>nextTimer := n\<rparr>) = clients_get st"
  by (simp_all add: clients_get_def fun_eq_iff split: option.splits)

lemma clients_get_simps [simp]:
  "clients_get (wsToClient_set w r st) = clients_get st"
  "clients_get (wsToClient_delete w st) = clients_get st"
  "clients_get (ws_close w st) = clients_get st"
  "clients_get (used_add pid st) = clients_get st"
  "clients_get (cancelOffline pid st) = clients_get st"
  "clients_get (scheduleOffline pid st) = clients_get st"
  "clients_get (closePrev w pid st) = clients_get st"
  "clients_get (fst (sendPlayerOnline now pid st)) = clients_get st"
  by (simp_all add: clients_get_def fun_eq_iff split: option.splits)

section \<open>Dispatch\<close>

lemma kindOf_simps [simp]:
  "kindOf ''player:request_id'' = RequestId"
  "kindOf ''player:reconnect'' = Reconnect"
  "kindOf ''player:update_name'' = UpdateName"
  "kindOf ''player:state_update'' = StateUpdate"
  "kindOf ''player:update_location'' = UpdateLocation"
  "kindOf ''game:start'' = GameStart"
  "kindOf ''game:score_update'' = ScoreUpdate"
  "kindOf ''game:apply_brisks'' = ApplyBrisks"
  "kindOf ''game:opponent_undo'' = OpponentUndo"
  "kindOf ''game:reset'' = Reset"
  "kindOf ''players:get_all'' = GetAll"
  "kindOf ''players:search'' = Search"
  "kindOf ''game:apply_points'' = Unknown"
  by (simp_all add: kindOf_def)

lemma handleMessage_kind:
  assumes "wsToClient_get st w = Some (r, client)" "msg_type m = Some t"
  shows "handleMessage w m now rnd st =
     (case kindOf t of
        RequestId \<Rightarrow> handle_request_id w r (payload m) now rnd st
      | Reconnect \<Rightarrow> Inr (handle_reconnect w r (payload m) now st)
      | UpdateName \<Rightarrow> Inr (handle_update_name r (payload m) st)
      | StateUpdate \<Rightarrow> Inr (handle_state_update r (payload m) st)
      | UpdateLocation \<Rightarrow> Inr (handle_update_location r (payload m) st)
      | GameStart \<Rightarrow> Inr (handle_game_start w r client (payload m) st)
      | ScoreUpdate \<Rightarrow> Inr (handle_score_update client (payload m) st)
      | ApplyBrisks \<Rightarrow> handle_apply_brisks client (payload m) st
      | OpponentUndo \<Rightarrow> handle_opponent_undo client (payload m) st
      | Reset \<Rightarrow> Inr (handle_reset client (payload m) st)
      | GetAll \<Rightarrow> Inr (handle_get_all client st)
      | Search \<Rightarrow> Inr (handle_search client (payload m) st)
      | Unknown \<Rightarrow> Inr (st, []))"
  using assms by (simp add: handleMessage_def)

lemma bound_send:
  assumes "bound st w pid"
  shows "send st pid ev = [Send w ev]"
  using assms
  by (auto simp add: bound_def send_def clients_get_def wsToClient_get_def split: option.splits)

lemma bound_session:
  assumes "bound st w pid"
  obtains r client where
    "wsToClient_get st w = Some (r, client)" "playerID client = pid" "ws client = w"
    "clients_ref st pid = Some r" "isOpen st w" "clients_get st pid = Some client"
  using assms
  by (auto simp add: bound_def clients_get_def wsToClient_get_def split: option.splits)

lemma temp_not_4digit: "startsWith s ''temp_'' \<Longrightarrow> \<not> is4digit s"
  by (auto simp add: startsWith_def is4digit_def)

lemma in_map_filter: "y \<in> set (List.map_filter f xs) \<longleftrightarrow> (\<exists>x \<in> set xs. f x = Some y)"
  by (induction xs) (auto simp add: List.map_filter_simps split: option.splits)


section \<open>The concrete runs, evaluated\<close>

lemmas eval_defs =
  step_def onConnection_def handleMessage_def wsToClient_get_def kindOf_def
  handle_reconnect_def plField_def validID_def is4digit_def isDigit_def Let_def
  clients_get_def send_def isOpen_def sendPlayerOnline_def ONLINE_BROADCAST_DEBOUNCE_MS_def
  resumeOpponent_def notifyOpponent_def closePrev_def cancelOffline_def clients_ref_def
  upd_client_def clients_set_def wsToClient_set_def used_add_def initial_def
  reconnectMsg_def emptyPayload_def orStr_def toOpponent_def

lemma two_players_eq:
  "two_players =
     \<lparr> clients = [(''1111'', 0), (''2222'', 1)], usedPlayerIDs = [''1111'', ''2222''],
       wsToClient = [0 \<mapsto> 0, 1 \<mapsto> 1],
       offlineTimers = Map.empty,
       lastOnlineBroadcast = [''1111'' \<mapsto> 5000, ''2222'' \<mapsto> 6000],
       heap = [0 \<mapsto> \<lparr> ws = 0, playerID = ''1111'', name = Some ''Player 1111'',
                         location = None, opponentID = None, lastState = None \<rparr>,
               1 \<mapsto> \<lparr> ws = 1, playerID = ''2222'', name = Some ''Player 2222'',
                         location = None, opponentID = None, lastState = None \<rparr>],
       readyState = (\<lambda>_. CLOSED)(0 := OPEN, 1 := OPEN), timers = Map.empty,
       nextWs = 2, nextTimer = 0 \<rparr>"
  unfolding two_players_def by (simp add: eval_defs)

lemma two_players_bound:
  "bound two_players 0 ''1111''" "bound two_players 1 ''2222''"
  by (simp_all add: two_players_eq bound_def wsToClient_get_def clients_ref_def isOpen_def)

lemma with_guest_eq:
  "with_guest =
     \<lparr> clients = [(''1111'', 0), (''2222'', 1)], usedPlayerIDs = [''1111'', ''2222''],
       wsToClient = [0 \<mapsto> 0, 1 \<mapsto> 1, 2 \<mapsto> 2],
       offlineTimers = Map.empty,
       lastOnlineBroadcast = [''1111'' \<mapsto> 5000, ''2222'' \<mapsto> 6000],
       heap = [0 \<mapsto> \<lparr> ws = 0, playerID = ''1111'', name = Some ''Player 1111'',
                         location = None, opponentID = None, lastState = None \<rparr>,
               1 \<mapsto> \<lparr> ws = 1, playerID = ''2222'', name = Some ''Player 2222'',
                         location = None, opponentID = None, lastState = None \<rparr>,
               2 \<mapsto> guest],
       readyState = (\<lambda>_. CLOSED)(0 := OPEN, 1 := OPEN, 2 := OPEN), timers = Map.empty,
       nextWs = 3, nextTimer = 0 \<rparr>"
  unfolding with_guest_def by (simp add: two_players_eq step_def onConnection_def guest_def)

lemma with_guest_bound:
  "bound with_guest 0 ''1111''" "bound with_guest 1 ''2222''"
  by (simp_all add: with_guest_eq bound_def wsToClient_get_def clients_ref_def isOpen_def)

lemma with_guest_session: "wsToClient_get with_guest 2 = Some (2, guest)"
  by (simp add: with_guest_eq wsToClient_get_def)

lemma closed_peer_eq:
  "closed_peer =
     \<lparr> clients = [(''1111'', 0), (''2222'', 1)], usedPlayerIDs = [''1111'', ''2222''],
       wsToClient = [0 \<mapsto> 0],
       offlineTimers = [''2222'' \<mapsto> 0],
       lastOnlineBroadcast = [''1111'' \<mapsto> 5000, ''2222'' \<mapsto> 6000],
       heap = [0 \<mapsto> \<lparr> ws = 0, playerID = ''1111'', name = Some ''Player 1111'',
                         location = None, opponentID = None, lastState = None \<rparr>,
               1 \<mapsto> \<lparr> ws = 1, playerID = ''2222'', name = Some ''Player 2222'',
                         location = None, opponentID = None, lastState = None \<rparr>],
       readyState = (\<lambda>_. CLOSED)(0 := OPEN, 1 := CLOSED), timers = [0 \<mapsto> ''2222''],
       nextWs = 2, nextTimer = 1 \<rparr>"
  unfolding closed_peer_def
  by (simp add: two_players_eq step_def onClose_def wsToClient_get_def wsToClient_delete_def
      startsWith_def clients_has_def clients_ref_def clients_get_def scheduleOffline_def
      fun_upd_twist)

lemma closed_peer_bound: "bound closed_peer 0 ''1111''"
  by (simp add: closed_peer_eq bound_def wsToClient_get_def clients_ref_def isOpen_def)










section \<open>Every reachable state satisfies the invariant\<close>

lemma invariant_initial: "invariant initial"
  by (simp add: invariant_def invHeap_def invReg_def invClients_def invBound_def invTimers_def
      invOpen_def invKeys_def initial_def clients_ref_def)

text \<open>A step that changes sessions only in fields other than \<open>ws\<close> and \<open>playerID\<close>.\<close>

lemma invariant_frame:
  assumes i: "invariant st"
    and f: "clients st' = clients st" "wsToClient st' = wsToClient st"
      "offlineTimers st' = offlineTimers st" "readyState st' = readyState st"
      "timers st' = timers st" "nextWs st' = nextWs st" "nextTimer st' = nextTimer st"
    and h: "\<And>r. map_option (\<lambda>c. (ws c, playerID c)) (heap st' r)
                 = map_option (\<lambda>c. (ws c, playerID c)) (heap st r)"
  shows "invariant st'"
proof -
  have cr: "clients_ref st' = clients_ref st"
    using f(1) by (simp add: clients_ref_def fun_eq_iff)
  have hs: "\<exists>c. heap st r = Some c \<and> ws c = ws c' \<and> playerID c = playerID c'"
    if "heap st' r = Some c'" for r c'
    using h [of r] that by (cases "heap st r") auto
  have hn: "heap st' r \<noteq> None" if "heap st r \<noteq> None" for r
    using h [of r] that by (cases "heap st' r") auto
  have 1: "invHeap st'"
    using i hs unfolding invariant_def invHeap_def f by metis
  have 2: "invReg st'"
    using i hn unfolding invariant_def invReg_def f by metis
  have 3: "invClients st'"
    using i hn unfolding invariant_def invClients_def cr by metis
  have 4: "invBound st'"
    using i hs unfolding invariant_def invBound_def cr f by metis
  have 5: "invTimers st'"
    using i unfolding invariant_def invTimers_def cr f by metis
  have 6: "invOpen st'"
    using i hs unfolding invariant_def invOpen_def cr f by metis
  have 7: "invKeys st'"
    using i unfolding invariant_def invKeys_def f by simp
  from 1 2 3 4 5 6 7 show ?thesis by (simp add: invariant_def)
qed


lemmas inv_defs =
  invHeap_def invReg_def invClients_def invBound_def invTimers_def invOpen_def invKeys_def

lemma invariantD:
  assumes "invariant st"
  shows "heap st r = Some c \<Longrightarrow> ws c = r" "heap st r = Some c \<Longrightarrow> r < nextWs st"
    "wsToClient st w = Some r \<Longrightarrow> r = w"
    "wsToClient st w = Some r \<Longrightarrow> heap st w \<noteq> None"
    "wsToClient st w = Some r \<Longrightarrow> readyState st w \<noteq> CLOSED"
    "clients_ref st pid = Some r \<Longrightarrow> heap st r \<noteq> None"
    "clients_ref st pid = Some r \<Longrightarrow> r < nextWs st"
    "wsToClient st w = Some w \<Longrightarrow> heap st w = Some c
       \<Longrightarrow> \<not> startsWith (playerID c) ''temp_'' \<Longrightarrow> clients_ref st (playerID c) = Some w"
    "timers st h = Some pid \<Longrightarrow> h < nextTimer st"
    "timers st h = Some pid \<Longrightarrow> offlineTimers st pid = Some h"
    "timers st h = Some pid \<Longrightarrow> \<exists>r. clients_ref st pid = Some r \<and> readyState st r = CLOSED"
    "clients_ref st pid = Some r \<Longrightarrow> heap st r = Some c \<Longrightarrow> readyState st r = OPEN
       \<Longrightarrow> clients_ref st (playerID c) = Some r"
    "distinct (map fst (clients st))"
  using assms unfolding invariant_def inv_defs by blast+


lemma invariant_connect:
  assumes i: "invariant st"
  shows "invariant (fst (onConnection stamp st))"
proof -
  let ?w = "nextWs st"
  let ?st = "fst (onConnection stamp st)"
  note d = invariantD [OF i]
  have f: "clients_ref ?st = clients_ref st" "nextWs ?st = ?w + 1"
    "readyState ?st = (readyState st)(?w := OPEN)"
    "wsToClient ?st = (wsToClient st)(?w \<mapsto> ?w)"
    "timers ?st = timers st" "offlineTimers ?st = offlineTimers st" "nextTimer ?st = nextTimer st"
    by (simp_all add: onConnection_def Let_def clients_ref_def fun_eq_iff)
  have hp: "heap ?st r = (if r = ?w then Some \<lparr> ws = ?w, playerID = ''temp_'' @ stamp,
                  name = Some ''Unknown Player'', location = None, opponentID = None,
                  lastState = None \<rparr> else heap st r)" for r
    by (simp add: onConnection_def Let_def)
  have fresh: "heap st ?w = None"
    using d(2) [of ?w] by (cases "heap st ?w") auto
  have notref: "clients_ref st pid \<noteq> Some ?w" for pid
    using d(7) [of pid ?w] by auto
  have 1: "invHeap ?st"
    unfolding invHeap_def f hp using d(1,2) by (auto simp add: less_Suc_eq split: if_splits)
  have 2: "invReg ?st"
    unfolding invReg_def f hp using d(3,4,5) fresh by (auto split: if_splits)
  have 3: "invClients ?st"
    unfolding invClients_def f hp using d(6) by auto
  have 4: "invBound ?st"
    unfolding invBound_def f hp using d(8) by (auto simp add: startsWith_def split: if_splits)
  have 5: "invTimers ?st"
    unfolding invTimers_def f
  proof (intro allI impI)
    fix h pid
    assume t: "timers st h = Some pid"
    from d(11) [OF t] obtain r where r: "clients_ref st pid = Some r" "readyState st r = CLOSED"
      by blast
    from r(1) notref [of pid] have "r \<noteq> ?w" by auto
    with r have "\<exists>r. clients_ref st pid = Some r \<and> ((readyState st)(?w := OPEN)) r = CLOSED"
      by auto
    with d(9) [OF t] d(10) [OF t]
    show "h < nextTimer st \<and> offlineTimers st pid = Some h
          \<and> (\<exists>r. clients_ref st pid = Some r \<and> ((readyState st)(?w := OPEN)) r = CLOSED)"
      by simp
  qed
  have 6: "invOpen ?st"
    unfolding invOpen_def f hp using d(12) notref by (auto split: if_splits)
  have 7: "invKeys ?st"
    unfolding invKeys_def using d(13) by (simp add: onConnection_def Let_def)
  from 1 2 3 4 5 6 7 show ?thesis by (simp add: invariant_def)
qed



lemma invariant_closing:
  assumes i: "invariant st"
  shows "invariant (ws_close w st)"
proof -
  note d = invariantD [OF i]
  have 1: "invHeap (ws_close w st)"
    unfolding invHeap_def using d(1,2) by auto
  have 2: "invReg (ws_close w st)"
    unfolding invReg_def using d(3,4,5) by auto
  have 3: "invClients (ws_close w st)"
    unfolding invClients_def using d(6) by auto
  have 4: "invBound (ws_close w st)"
    unfolding invBound_def using d(8) by auto
  have 5: "invTimers (ws_close w st)"
    unfolding invTimers_def
  proof (intro allI impI)
    fix h pid
    assume "timers (ws_close w st) h = Some pid"
    then have t: "timers st h = Some pid" by simp
    from d(11) [OF t] obtain r where r: "clients_ref st pid = Some r" "readyState st r = CLOSED"
      by blast
    then have "clients_ref (ws_close w st) pid = Some r \<and> readyState (ws_close w st) r = CLOSED"
      by auto
    with d(9) [OF t] d(10) [OF t]
    show "h < nextTimer (ws_close w st) \<and> offlineTimers (ws_close w st) pid = Some h
          \<and> (\<exists>r. clients_ref (ws_close w st) pid = Some r
                 \<and> readyState (ws_close w st) r = CLOSED)"
      by auto
  qed
  have 6: "invOpen (ws_close w st)"
    unfolding invOpen_def using d(12) by (auto split: if_splits)
  have 7: "invKeys (ws_close w st)"
    unfolding invKeys_def using d(13) by simp
  from 1 2 3 4 5 6 7 show ?thesis by (simp add: invariant_def)
qed


lemma invariant_closed:
  assumes i: "invariant st"
  shows "invariant (wsToClient_delete w (st\<lparr>readyState := (readyState st)(w := CLOSED)\<rparr>))"
    (is "invariant ?st")
proof -
  note d = invariantD [OF i]
  have f: "clients_ref ?st = clients_ref st" "heap ?st = heap st" "nextWs ?st = nextWs st"
    "readyState ?st = (readyState st)(w := CLOSED)"
    "wsToClient ?st = (wsToClient st)(w := None)"
    "timers ?st = timers st" "offlineTimers ?st = offlineTimers st" "nextTimer ?st = nextTimer st"
    by (simp_all add: clients_ref_def fun_eq_iff)
  have 1: "invHeap ?st"
    unfolding invHeap_def f using d(1,2) by auto
  have 2: "invReg ?st"
    unfolding invReg_def f using d(3,4,5) by (auto split: if_splits)
  have 3: "invClients ?st"
    unfolding invClients_def f using d(6) by auto
  have 4: "invBound ?st"
    unfolding invBound_def f using d(8) by (auto split: if_splits)
  have 5: "invTimers ?st"
    unfolding invTimers_def f
  proof (intro allI impI)
    fix h pid
    assume t: "timers st h = Some pid"
    from d(11) [OF t] obtain r where r: "clients_ref st pid = Some r" "readyState st r = CLOSED"
      by blast
    then have "clients_ref st pid = Some r \<and> ((readyState st)(w := CLOSED)) r = CLOSED"
      by auto
    with d(9) [OF t] d(10) [OF t]
    show "h < nextTimer st \<and> offlineTimers st pid = Some h
          \<and> (\<exists>r. clients_ref st pid = Some r \<and> ((readyState st)(w := CLOSED)) r = CLOSED)"
      by blast
  qed
  have 6: "invOpen ?st"
    unfolding invOpen_def f using d(12) by (auto split: if_splits)
  have 7: "invKeys ?st"
    unfolding invKeys_def using d(13) by simp
  from 1 2 3 4 5 6 7 show ?thesis by (simp add: invariant_def)
qed

lemma invariant_schedule:
  assumes i: "invariant st"
    and none: "\<And>h. timers st h \<noteq> Some pid"
    and holder: "clients_ref st pid = Some r" "readyState st r = CLOSED"
  shows "invariant (scheduleOffline pid st)" (is "invariant ?st")
proof -
  note d = invariantD [OF i]
  have 1: "invHeap ?st"
    unfolding invHeap_def using d(1,2) by auto
  have 2: "invReg ?st"
    unfolding invReg_def using d(3,4,5) by auto
  have 3: "invClients ?st"
    unfolding invClients_def using d(6) by auto
  have 4: "invBound ?st"
    unfolding invBound_def using d(8) by auto
  have 5: "invTimers ?st"
    unfolding invTimers_def
  proof (intro allI impI)
    fix h q
    assume t: "timers ?st h = Some q"
    show "h < nextTimer ?st \<and> offlineTimers ?st q = Some h
          \<and> (\<exists>r. clients_ref ?st q = Some r \<and> readyState ?st r = CLOSED)"
    proof (cases "h = nextTimer st")
      case True
      with t have "q = pid" by simp
      with True holder show ?thesis by simp
    next
      case False
      with t have t': "timers st h = Some q" by simp
      with none have "q \<noteq> pid" by auto
      with d(9) [OF t'] d(10) [OF t'] d(11) [OF t'] show ?thesis by simp
    qed
  qed
  have 6: "invOpen ?st"
    unfolding invOpen_def using d(12) by auto
  have 7: "invKeys ?st"
    unfolding invKeys_def using d(13) by simp
  from 1 2 3 4 5 6 7 show ?thesis by (simp add: invariant_def)
qed


lemma find_SomeD': "find P xs = Some x \<Longrightarrow> x \<in> set xs \<and> P x"
  by (induction xs) (auto split: if_splits)

lemma entries_ref:
  assumes "(pid, c) \<in> set (clients_entries st)" "distinct (map fst (clients st))"
  shows "\<exists>r. clients_ref st pid = Some r \<and> heap st r = Some c"
proof -
  from assms(1) obtain r where "(pid, r) \<in> set (clients st)" "heap st r = Some c"
    by (auto simp add: clients_entries_def in_map_filter)
  with assms(2) show ?thesis
    by (auto simp add: clients_ref_def)
qed

lemma invariant_close:
  assumes i: "invariant st" and o: "readyState st w \<noteq> CLOSED"
  shows "invariant (onClose w (st\<lparr>readyState := (readyState st)(w := CLOSED)\<rparr>))"
proof -
  let ?st0 = "st\<lparr>readyState := (readyState st)(w := CLOSED)\<rparr>"
  let ?st1 = "wsToClient_delete w ?st0"
  note d = invariantD [OF i]
  have i1: "invariant ?st1"
    using i by (rule invariant_closed)
  have none: "timers ?st1 h \<noteq> Some pid" if "clients_ref st pid = Some w" for h pid
  proof
    assume "timers ?st1 h = Some pid"
    then have "timers st h = Some pid" by simp
    from d(11) [OF this] that o show False by auto
  qed
  have sched: "invariant (scheduleOffline pid ?st1)" if "clients_ref st pid = Some w" for pid
  proof (rule invariant_schedule [OF i1])
    show "timers ?st1 h \<noteq> Some pid" for h
      using that by (rule none)
    show "clients_ref ?st1 pid = Some w"
      using that by (simp add: clients_ref_def)
    show "readyState ?st1 w = CLOSED"
      by simp
  qed
  have g: "wsToClient_get ?st0 w = wsToClient_get st w"
    by (simp add: wsToClient_get_def split: option.splits)
  show ?thesis
  proof (cases "wsToClient_get st w")
    case None
    have "wsToClient st w = None"
    proof (cases "wsToClient st w")
      case (Some r)
      with d(3) [OF Some] d(4) [OF Some] None show ?thesis
        by (auto simp add: wsToClient_get_def)
    qed simp
    then have "(wsToClient st)(w := None) = wsToClient st"
      by (rule fun_upd_idem)
    then have same: "?st1 = ?st0"
      by (simp add: wsToClient_delete_def)
    show ?thesis
    proof (cases "find (\<lambda>(pid, c). ws c = w) (clients_entries ?st0)")
      case n: None
      with None g i1 same show ?thesis
        by (simp add: onClose_def)
    next
      case (Some pc)
      obtain pid c where pc: "pc = (pid, c)" by (cases pc)
      from Some pc have "(pid, c) \<in> set (clients_entries ?st0) \<and> ws c = w"
        using find_SomeD' [of "\<lambda>(pid, c). ws c = w" "clients_entries ?st0" "(pid, c)"] by simp
      then have "(pid, c) \<in> set (clients_entries st)" "ws c = w"
        by (simp_all add: clients_entries_def)
      with entries_ref [OF _ d(13)] obtain r where "clients_ref st pid = Some r" "heap st r = Some c"
        by blast
      with d(1) \<open>ws c = w\<close> have "clients_ref st pid = Some w" by auto
      from sched [OF this] None g Some pc same show ?thesis
        by (simp add: onClose_def)
    qed
  next
    case (Some rc)
    obtain r client where rc: "rc = (r, client)" by (cases rc)
    let ?pid = "playerID client"
    show ?thesis
    proof (cases "\<not> startsWith ?pid ''temp_'' \<and> clients_has ?st1 ?pid
                   \<and> (\<exists>existing. clients_get ?st1 ?pid = Some existing \<and> ws existing = w)")
      case True
      then obtain existing where e: "clients_get ?st1 ?pid = Some existing" "ws existing = w"
        by blast
      then obtain r' where "clients_ref st ?pid = Some r'" "heap st r' = Some existing"
        by (auto simp add: clients_get_def clients_ref_def split: option.splits)
      with d(1) e(2) have "clients_ref st ?pid = Some w" by auto
      from sched [OF this] True e Some rc g show ?thesis
        by (simp add: onClose_def Let_def)
    next
      case False
      then have "onClose w ?st0 = ?st1"
        using Some rc g by (auto simp add: onClose_def Let_def split: option.splits)
      with i1 show ?thesis by simp
    qed
  qed
qed


lemma invariant_timeout:
  assumes i: "invariant st" and t: "timers st h = Some pid"
  shows "invariant (fst (offlineExpired pid (st\<lparr>timers := (timers st)(h := None)\<rparr>)))"
    (is "invariant ?st")
proof -
  note d = invariantD [OF i]
  have f: "clients_ref ?st = (clients_ref st)(pid := None)" "heap ?st = heap st"
    "nextWs ?st = nextWs st" "readyState ?st = readyState st" "wsToClient ?st = wsToClient st"
    "timers ?st = (timers st)(h := None)" "offlineTimers ?st = (offlineTimers st)(pid := None)"
    "nextTimer ?st = nextTimer st"
    by (simp_all add: offlineExpired_def Let_def)
  from d(11) [OF t] obtain r0 where
    r0: "clients_ref st pid = Some r0" "readyState st r0 = CLOSED"
    by blast
  have 1: "invHeap ?st"
    unfolding invHeap_def f using d(1,2) by auto
  have 2: "invReg ?st"
    unfolding invReg_def f using d(3,4,5) by auto
  have 3: "invClients ?st"
    unfolding invClients_def f using d(6) by (auto split: if_splits)
  have 4: "invBound ?st"
    unfolding invBound_def f
  proof (intro allI impI, elim conjE)
    fix w c
    assume a: "wsToClient st w = Some w" "heap st w = Some c"
      "\<not> startsWith (playerID c) ''temp_''"
    from d(8) [OF a] have b: "clients_ref st (playerID c) = Some w" .
    have "playerID c \<noteq> pid"
    proof
      assume "playerID c = pid"
      with b r0 have "readyState st w = CLOSED" by simp
      with d(5) [OF a(1)] show False by simp
    qed
    with b show "((clients_ref st)(pid := None)) (playerID c) = Some w" by simp
  qed
  have 5: "invTimers ?st"
    unfolding invTimers_def f
  proof (intro allI impI)
    fix h' q
    assume "((timers st)(h := None)) h' = Some q"
    then have n: "h' \<noteq> h" and t': "timers st h' = Some q"
      by (auto split: if_splits)
    have "q \<noteq> pid"
    proof
      assume "q = pid"
      with d(10) [OF t'] d(10) [OF t] n show False by simp
    qed
    with d(9) [OF t'] d(10) [OF t'] d(11) [OF t']
    show "h' < nextTimer st \<and> ((offlineTimers st)(pid := None)) q = Some h'
          \<and> (\<exists>r. ((clients_ref st)(pid := None)) q = Some r \<and> readyState st r = CLOSED)"
      by simp
  qed
  have 6: "invOpen ?st"
    unfolding invOpen_def f
  proof (intro allI impI, elim conjE)
    fix q r c
    assume a: "((clients_ref st)(pid := None)) q = Some r" "heap st r = Some c"
      "readyState st r = OPEN"
    then have q: "clients_ref st q = Some r"
      by (auto split: if_splits)
    from d(12) [OF q a(2,3)] have b: "clients_ref st (playerID c) = Some r" .
    have "playerID c \<noteq> pid"
    proof
      assume "playerID c = pid"
      with b r0 a(3) show False by simp
    qed
    with b show "((clients_ref st)(pid := None)) (playerID c) = Some r" by simp
  qed
  have 7: "invKeys ?st"
    unfolding invKeys_def using d(13)
    by (simp add: offlineExpired_def Let_def distinct_delete)
  from 1 2 3 4 5 6 7 show ?thesis by (simp add: invariant_def)
qed


lemma closePrev_effect:
  assumes i: "invariant st"
  shows "wsToClient (closePrev w pid st) x
           = (if x \<noteq> w \<and> clients_ref st pid = Some x then None else wsToClient st x)"
    and "readyState (closePrev w pid st) x
           = (if x \<noteq> w \<and> clients_ref st pid = Some x \<and> readyState st x = OPEN
              then CLOSING else readyState st x)"
proof -
  note d = invariantD [OF i]
  show "wsToClient (closePrev w pid st) x
           = (if x \<noteq> w \<and> clients_ref st pid = Some x then None else wsToClient st x)"
  proof (cases "clients_ref st pid")
    case None
    then show ?thesis by (simp add: closePrev_def clients_get_def)
  next
    case (Some r)
    with d(6) [OF Some] obtain prev where p: "heap st r = Some prev" by auto
    with d(1) have "ws prev = r" by auto
    with Some p show ?thesis by (auto simp add: closePrev_def clients_get_def)
  qed
  show "readyState (closePrev w pid st) x
           = (if x \<noteq> w \<and> clients_ref st pid = Some x \<and> readyState st x = OPEN
              then CLOSING else readyState st x)"
  proof (cases "clients_ref st pid")
    case None
    then show ?thesis by (simp add: closePrev_def clients_get_def)
  next
    case (Some r)
    with d(6) [OF Some] obtain prev where p: "heap st r = Some prev" by auto
    with d(1) have "ws prev = r" by auto
    with Some p show ?thesis by (auto simp add: closePrev_def clients_get_def)
  qed
qed

lemma invariant_bind:
  assumes i: "invariant st"
    and reg: "wsToClient st w = Some w" and obj: "heap st w = Some c"
    and cl: "clients st' = AList.update pid w (clients st)"
    and hp: "heap st' = (heap st)(w \<mapsto> c')" "ws c' = w" "playerID c' = pid"
    and wt: "wsToClient st' = (wsToClient (closePrev w pid st))(w \<mapsto> w)"
    and rs: "readyState st' = readyState (closePrev w pid st)"
    and nx: "nextWs st' = nextWs st" "nextTimer st' = nextTimer st"
    and tm: "\<And>h q. timers st' h = Some q \<Longrightarrow>
               timers st h = Some q \<and> q \<noteq> pid \<and> offlineTimers st' q = offlineTimers st q"
  shows "invariant st'"
proof -
  note d = invariantD [OF i]
  note cp = closePrev_effect [OF i, of w pid]
  have cr: "clients_ref st' = (clients_ref st)(pid \<mapsto> w)"
    using cl by (simp add: clients_ref_def fun_eq_iff update_conv')
  have wlt: "w < nextWs st"
    using d(2) [OF obj] .
  have open_w: "readyState st w \<noteq> CLOSED"
    using d(5) [OF reg] .
  have 1: "invHeap st'"
    unfolding invHeap_def hp nx using d(1,2) hp(2) wlt by (auto split: if_splits)
  have 2: "invReg st'"
    unfolding invReg_def
  proof (intro allI impI)
    fix x r
    assume a: "wsToClient st' x = Some r"
    show "r = x \<and> heap st' x \<noteq> None \<and> readyState st' x \<noteq> CLOSED"
    proof (cases "x = w")
      case True
      from a True have "r = w" by (simp add: wt)
      moreover have "readyState st' w \<noteq> CLOSED"
        using open_w by (simp add: rs cp)
      moreover have "heap st' w \<noteq> None"
        by (simp add: hp)
      ultimately show ?thesis using True by simp
    next
      case False
      with a have b: "wsToClient st x = Some r"
        by (simp add: wt cp split: if_splits)
      from d(3) [OF b] d(4) [OF b] d(5) [OF b] False show ?thesis
        by (simp add: hp rs cp)
    qed
  qed
  have 3: "invClients st'"
    unfolding invClients_def cr hp using d(6) by (auto split: if_splits)
  have 4: "invBound st'"
    unfolding invBound_def
  proof (intro allI impI, elim conjE)
    fix x cx
    assume a: "wsToClient st' x = Some x" "heap st' x = Some cx"
      "\<not> startsWith (playerID cx) ''temp_''"
    show "clients_ref st' (playerID cx) = Some x"
    proof (cases "x = w")
      case True
      with a(2) hp show ?thesis by (simp add: cr)
    next
      case False
      with a(1) have b: "wsToClient st x = Some x" and n: "clients_ref st pid \<noteq> Some x"
        by (simp_all add: wt cp split: if_splits)
      from a(2) False have h: "heap st x = Some cx" by (simp add: hp)
      from d(8) [OF b h a(3)] have e: "clients_ref st (playerID cx) = Some x" .
      with n have "playerID cx \<noteq> pid" by auto
      with e show ?thesis by (simp add: cr)
    qed
  qed
  have 5: "invTimers st'"
    unfolding invTimers_def
  proof (intro allI impI)
    fix h q
    assume a: "timers st' h = Some q"
    from tm [OF a] have t: "timers st h = Some q" and n: "q \<noteq> pid"
      and o: "offlineTimers st' q = offlineTimers st q"
      by simp_all
    from d(11) [OF t] obtain r where r: "clients_ref st q = Some r" "readyState st r = CLOSED"
      by blast
    from r n have "clients_ref st' q = Some r \<and> readyState st' r = CLOSED"
      by (simp add: cr rs cp)
    with d(9) [OF t] d(10) [OF t] o
    show "h < nextTimer st' \<and> offlineTimers st' q = Some h
          \<and> (\<exists>r. clients_ref st' q = Some r \<and> readyState st' r = CLOSED)"
      by (auto simp add: nx)
  qed
  have 6: "invOpen st'"
    unfolding invOpen_def
  proof (intro allI impI, elim conjE)
    fix q r cx
    assume a: "clients_ref st' q = Some r" "heap st' r = Some cx" "readyState st' r = OPEN"
    show "clients_ref st' (playerID cx) = Some r"
    proof (cases "r = w")
      case True
      with a(2) hp show ?thesis by (simp add: cr)
    next
      case False
      with a(1) have q: "clients_ref st q = Some r"
        by (auto simp add: cr split: if_splits)
      from a(2) False have h: "heap st r = Some cx" by (simp add: hp)
      from a(3) False have o: "readyState st r = OPEN" and n: "clients_ref st pid \<noteq> Some r"
        by (auto simp add: rs cp split: if_splits)
      from d(12) [OF q h o] have e: "clients_ref st (playerID cx) = Some r" .
      with n have "playerID cx \<noteq> pid" by auto
      with e show ?thesis by (simp add: cr)
    qed
  qed
  have 7: "invKeys st'"
    unfolding invKeys_def cl using d(13) by (simp add: distinct_update)
  from 1 2 3 4 5 6 7 show ?thesis by (simp add: invariant_def)
qed


lemma genLoop_fresh:
  "genLoop rnd st attempts = Inr pid \<Longrightarrow>
     pid \<notin> set (usedPlayerIDs st) \<and> \<not> clients_has st pid"
proof (induction rnd st attempts rule: genLoop.induct)
  case (1 rnd st attempts)
  show ?case
  proof (cases "attempts + 1 > 1000")
    case True
    with "1.prems" show ?thesis by (simp add: genLoop.simps)
  next
    case False
    show ?thesis
    proof (cases "toString (rnd attempts mod 9000 + 1000) \<in> set (usedPlayerIDs st)
                  \<or> clients_has st (toString (rnd attempts mod 9000 + 1000))")
      case True
      with False "1.prems" have "genLoop rnd st (attempts + 1) = Inr pid"
        by (simp add: genLoop.simps [of rnd st attempts])
      with "1.IH" [OF False True] show ?thesis by simp
    next
      case f: False
      with False "1.prems" have "pid = toString (rnd attempts mod 9000 + 1000)"
        by (simp add: genLoop.simps [of rnd st attempts])
      with f show ?thesis by simp
    qed
  qed
qed

lemma generate_fresh:
  assumes "generateUniquePlayerID rnd st = Inr (pid, st1, saved)"
  shows "pid \<notin> set (usedPlayerIDs st)" "clients_ref st pid = None" "st1 = used_add pid st"
    "saved = [SaveUsedIDs]"
proof -
  from assms have g: "genLoop rnd st 0 = Inr pid" and "st1 = used_add pid st"
    "saved = [SaveUsedIDs]"
    by (auto simp add: generateUniquePlayerID_def split: sum.splits)
  then show "st1 = used_add pid st" "saved = [SaveUsedIDs]" by simp_all
  from genLoop_fresh [OF g] show "pid \<notin> set (usedPlayerIDs st)" "clients_ref st pid = None"
    by (simp_all add: clients_has_def)
qed

lemma session_registered:
  assumes i: "invariant st" and s: "wsToClient_get st w = Some (r, client)"
  shows "r = w" "wsToClient st w = Some w" "heap st w = Some client"
proof -
  have a: "wsToClient st w = Some r \<and> heap st r = Some client"
  proof (cases "wsToClient st w")
    case None
    with s show ?thesis by (simp add: wsToClient_get_def)
  next
    case (Some r')
    with s show ?thesis by (cases "heap st r'") (simp_all add: wsToClient_get_def)
  qed
  then have "r = w"
    using invariantD(3) [OF i, of w r] by simp
  with a show "r = w" "wsToClient st w = Some w" "heap st w = Some client"
    by simp_all
qed

lemma invariant_upd_client:
  assumes i: "invariant st" and f: "\<And>c. ws (f c) = ws c \<and> playerID (f c) = playerID c"
  shows "invariant (upd_client r f st)"
proof (rule invariant_frame [OF i])
  show "map_option (\<lambda>c. (ws c, playerID c)) (heap (upd_client r f st) x)
          = map_option (\<lambda>c. (ws c, playerID c)) (heap st x)" for x
    using f by (cases "heap st r") (simp_all add: option.map_comp comp_def)
qed simp_all

lemma invariant_sendPlayerOnline:
  assumes "invariant st"
  shows "invariant (fst (sendPlayerOnline now pid st))"
  by (rule invariant_frame [OF assms]) simp_all

lemma invariant_used_add:
  assumes "invariant st"
  shows "invariant (used_add pid st)"
  by (rule invariant_frame [OF assms]) simp_all

lemma invariant_loaded:
  assumes "invariant st"
  shows "invariant (fold used_add ids st)"
  using assms by (induction ids arbitrary: st) (simp_all add: invariant_used_add)


lemma closePrev_after_cancel:
  "wsToClient (closePrev w pid (cancelOffline q st)) = wsToClient (closePrev w pid st)"
  "readyState (closePrev w pid (cancelOffline q st)) = readyState (closePrev w pid st)"
  by (simp_all add: closePrev_def split: option.splits)

lemma invariant_reconnect:
  assumes i: "invariant st" and s: "wsToClient_get st w = Some (r, client)"
  shows "invariant (fst (handle_reconnect w r pl now st))"
proof (cases "validID (plField pl p_playerID)")
  case False
  then have "fst (handle_reconnect w r pl now st) = st"
    by (auto simp add: handle_reconnect_def split: option.splits)
  with i show ?thesis by simp
next
  case True
  then obtain pid where pid: "plField pl p_playerID = Some pid"
    by (auto simp add: validID_def split: option.splits)
  note reg = session_registered [OF i s]
  note d = invariantD [OF i]
  let ?f = "\<lambda>c. c\<lparr>playerID := pid,
                     name := Some (orStr (plField pl p_name) (''Player '' @ pid))\<rparr>"
  let ?st = "fst (handle_reconnect w r pl now st)"
  have fs: "?st = fst (sendPlayerOnline now pid
              (used_add pid (wsToClient_set w w (clients_set pid w
                 (upd_client w ?f (closePrev w pid (cancelOffline pid st)))))))"
    using True pid reg(1) by (simp add: handle_reconnect_def Let_def)
  show ?thesis
  proof (rule invariant_bind [OF i reg(2) reg(3), where pid = pid and c' = "?f client"])
    show "clients ?st = AList.update pid w (clients st)"
      by (simp add: fs)
    show "heap ?st = (heap st)(w \<mapsto> ?f client)"
      using reg(3) by (simp add: fs)
    show "ws (?f client) = w"
      using d(1) [OF reg(3)] by simp
    show "playerID (?f client) = pid"
      by simp
    show "wsToClient ?st = (wsToClient (closePrev w pid st))(w \<mapsto> w)"
      by (simp add: fs closePrev_after_cancel)
    show "readyState ?st = readyState (closePrev w pid st)"
      by (simp add: fs closePrev_after_cancel)
    show "nextWs ?st = nextWs st" "nextTimer ?st = nextTimer st"
      by (simp_all add: fs)
    show "timers st h = Some q \<and> q \<noteq> pid \<and> offlineTimers ?st q = offlineTimers st q"
      if a: "timers ?st h = Some q" for h q
    proof -
      from a have b: "timers (cancelOffline pid st) h = Some q"
        by (simp add: fs)
      then have t: "timers st h = Some q"
        by (cases "offlineTimers st pid") (simp_all split: if_splits)
      have n: "q \<noteq> pid"
      proof
        assume "q = pid"
        with d(10) [OF t] have "offlineTimers st pid = Some h" by simp
        with b show False by simp
      qed
      then have "offlineTimers ?st q = offlineTimers st q"
        by (simp add: fs)
      with t n show ?thesis by simp
    qed
  qed
qed

lemma invariant_request_id:
  assumes i: "invariant st" and s: "wsToClient_get st w = Some (r, client)"
    and res: "handle_request_id w r pl now rnd st = Inr (st', out)"
  shows "invariant st'"
proof -
  note reg = session_registered [OF i s]
  note d = invariantD [OF i]
  from res obtain pid st1 saved where
    g: "generateUniquePlayerID rnd st = Inr (pid, st1, saved)"
    by (cases "generateUniquePlayerID rnd st") (auto simp add: handle_request_id_def)
  note fr = generate_fresh [OF g]
  let ?f = "\<lambda>c. c\<lparr>playerID := pid,
                     name := Some (orStr (plField pl p_name) (''Player '' @ pid))\<rparr>"
  have none: "clients_get (upd_client w ?f (used_add pid st)) pid = None"
    using fr(2) by (simp add: clients_get_def)
  have cp: "closePrev w pid (upd_client w ?f (used_add pid st)) = upd_client w ?f (used_add pid st)"
    using none by (simp add: closePrev_def)
  have cp0: "closePrev w pid st = st"
    using fr(2) by (simp add: closePrev_def clients_get_def)
  have fs: "st' = fst (sendPlayerOnline now pid
              (wsToClient_set w w (clients_set pid w (upd_client w ?f (used_add pid st)))))"
    using res g fr(3) reg(1) cp by (simp add: handle_request_id_def Let_def)
  show ?thesis
  proof (rule invariant_bind [OF i reg(2) reg(3), where pid = pid and c' = "?f client"])
    show "clients st' = AList.update pid w (clients st)"
      by (simp add: fs)
    show "heap st' = (heap st)(w \<mapsto> ?f client)"
      using reg(3) by (simp add: fs)
    show "ws (?f client) = w"
      using d(1) [OF reg(3)] by simp
    show "playerID (?f client) = pid"
      by simp
    show "wsToClient st' = (wsToClient (closePrev w pid st))(w \<mapsto> w)"
      by (simp add: fs cp0)
    show "readyState st' = readyState (closePrev w pid st)"
      by (simp add: fs cp0)
    show "nextWs st' = nextWs st" "nextTimer st' = nextTimer st"
      by (simp_all add: fs)
    show "timers st h = Some q \<and> q \<noteq> pid \<and> offlineTimers st' q = offlineTimers st q"
      if a: "timers st' h = Some q" for h q
    proof -
      from a have t: "timers st h = Some q" by (simp add: fs)
      from d(11) [OF t] fr(2) have "q \<noteq> pid" by auto
      with t show ?thesis by (simp add: fs)
    qed
  qed
qed

lemma invariant_update_name:
  assumes "invariant st"
  shows "invariant (fst (handle_update_name r pl st))"
  using assms by (simp add: handle_update_name_def Let_def invariant_upd_client)

lemma invariant_state_update:
  assumes "invariant st"
  shows "invariant (fst (handle_state_update r pl st))"
  using assms by (simp add: handle_state_update_def invariant_upd_client)

lemma invariant_update_location:
  assumes "invariant st"
  shows "invariant (fst (handle_update_location r pl st))"
  using assms by (simp add: handle_update_location_def invariant_upd_client)

lemma invariant_game_start:
  assumes "invariant st"
  shows "invariant (fst (handle_game_start w r client pl st))"
  using assms
  by (simp add: handle_game_start_def Let_def invariant_upd_client split: option.splits)

lemma unchanged_handlers:
  "fst (handle_score_update client pl st) = st"
  "fst (forwardTo client t ev st) = st"
  "fst (handle_reset client pl st) = st"
  "fst (handle_get_all client st) = st"
  "fst (handle_search client pl st) = st"
  by (simp_all add: handle_score_update_def forwardTo_def handle_reset_def handle_get_all_def
      handle_search_def split: option.splits)

lemma invariant_handleMessage:
  assumes i: "invariant st" and res: "handleMessage w m now rnd st = Inr (st', out)"
  shows "invariant st'"
proof (cases "wsToClient_get st w")
  case None
  with res i show ?thesis by (simp add: handleMessage_def)
next
  case (Some rc)
  obtain r client where rc: "rc = (r, client)" by (cases rc)
  with Some have s: "wsToClient_get st w = Some (r, client)" by simp
  let ?k = "kindOf (case msg_type m of None \<Rightarrow> [] | Some t \<Rightarrow> t)"
  have st': "st' = fst (st', out)" by simp
  show ?thesis
  proof (cases ?k)
    case RequestId
    with res s have "handle_request_id w r (payload m) now rnd st = Inr (st', out)"
      by (simp add: handleMessage_def)
    from invariant_request_id [OF i s this] show ?thesis .
  next
    case Reconnect
    with res s have "st' = fst (handle_reconnect w r (payload m) now st)"
      by (auto simp add: handleMessage_def)
    with invariant_reconnect [OF i s] show ?thesis by simp
  next
    case UpdateName
    with res s have "st' = fst (handle_update_name r (payload m) st)"
      by (auto simp add: handleMessage_def)
    with invariant_update_name [OF i] show ?thesis by simp
  next
    case StateUpdate
    with res s have "st' = fst (handle_state_update r (payload m) st)"
      by (auto simp add: handleMessage_def)
    with invariant_state_update [OF i] show ?thesis by simp
  next
    case UpdateLocation
    with res s have "st' = fst (handle_update_location r (payload m) st)"
      by (auto simp add: handleMessage_def)
    with invariant_update_location [OF i] show ?thesis by simp
  next
    case GameStart
    with res s have "st' = fst (handle_game_start w r client (payload m) st)"
      by (auto simp add: handleMessage_def)
    with invariant_game_start [OF i] show ?thesis by simp
  next
    case ScoreUpdate
    with res s have "st' = fst (handle_score_update client (payload m) st)"
      by (auto simp add: handleMessage_def)
    with i show ?thesis by (simp add: unchanged_handlers)
  next
    case ApplyBrisks
    with res s have "st' = st"
      by (cases "payload m")
         (auto simp add: handleMessage_def handle_apply_brisks_def dest: arg_cong [where f = fst]
            simp add: unchanged_handlers)
    with i show ?thesis by simp
  next
    case OpponentUndo
    with res s have "st' = st"
      by (cases "payload m")
         (auto simp add: handleMessage_def handle_opponent_undo_def dest: arg_cong [where f = fst]
            simp add: unchanged_handlers)
    with i show ?thesis by simp
  next
    case Reset
    with res s have "st' = fst (handle_reset client (payload m) st)"
      by (auto simp add: handleMessage_def)
    with i show ?thesis by (simp add: unchanged_handlers)
  next
    case GetAll
    with res s have "st' = fst (handle_get_all client st)"
      by (auto simp add: handleMessage_def)
    with i show ?thesis by (simp add: unchanged_handlers)
  next
    case Search
    with res s have "st' = fst (handle_search client (payload m) st)"
      by (auto simp add: handleMessage_def)
    with i show ?thesis by (simp add: unchanged_handlers)
  next
    case Unknown
    with res s i show ?thesis by (simp add: handleMessage_def)
  qed
qed

lemma invariant_step:
  assumes i: "invariant st"
  shows "invariant (fst (step st e))"
proof (cases e)
  case (Connect stamp)
  with invariant_connect [OF i] show ?thesis by (simp add: step_def)
next
  case (Receive w m now rnd)
  show ?thesis
  proof (cases "w < nextWs st \<and> readyState st w \<noteq> CLOSED")
    case False
    with Receive i show ?thesis by (auto simp add: step_def)
  next
    case True
    show ?thesis
    proof (cases "handleMessage w m now rnd st")
      case (Inl err)
      with Receive True i show ?thesis by (simp add: step_def)
    next
      case (Inr res)
      obtain st' out where "res = (st', out)" by (cases res)
      with Inr invariant_handleMessage [OF i] Receive True show ?thesis
        by (simp add: step_def)
    qed
  qed
next
  case (Closing w)
  with invariant_closing [OF i] i show ?thesis by (simp add: step_def)
next
  case (Close w)
  with invariant_close [OF i] i show ?thesis by (simp add: step_def)
next
  case (Timeout h)
  show ?thesis
  proof (cases "timers st h")
    case None
    with Timeout i show ?thesis by (simp add: step_def)
  next
    case (Some pid)
    with Timeout invariant_timeout [OF i Some] show ?thesis by (simp add: step_def)
  qed
next
  case (Loaded ids)
  with invariant_loaded [OF i] show ?thesis by (simp add: step_def)
qed

lemma reachable_invariant: "reachable st \<Longrightarrow> invariant st"
  by (induction rule: reachable.induct) (simp_all add: invariant_initial invariant_step)

lemma reachable_run: "reachable st \<Longrightarrow> reachable (fst (run st es))"
proof (induction es arbitrary: st)
  case Nil
  then show ?case by simp
next
  case (Cons e es)
  from Cons.prems have "reachable (fst (step st e))"
    by (rule reachable_step)
  from Cons.IH [OF this] show ?case
    by (simp add: split_def)
qed

lemma reachable_scenarios:
  "reachable two_players" "reachable with_guest" "reachable closed_peer" "reachable three_players"
proof -
  show a: "reachable two_players"
    unfolding two_players_def by (rule reachable_run [OF reachable_initial])
  show "reachable with_guest"
    unfolding with_guest_def by (rule reachable_step [OF a])
  show "reachable closed_peer"
    unfolding closed_peer_def by (rule reachable_step [OF a])
  show "reachable three_players"
    unfolding three_players_def by (rule reachable_run [OF reachable_initial])
qed


lemma paired_eq:
  "paired =
     \<lparr> clients = [(''1111'', 0), (''2222'', 1)], usedPlayerIDs = [''1111'', ''2222''],
       wsToClient = [0 \<mapsto> 0, 1 \<mapsto> 1],
       offlineTimers = Map.empty,
       lastOnlineBroadcast = [''1111'' \<mapsto> 5000, ''2222'' \<mapsto> 6000],
       heap = [0 \<mapsto> \<lparr> ws = 0, playerID = ''1111'', name = Some ''Player 1111'',
                         location = None, opponentID = Some ''2222'', lastState = None \<rparr>,
               1 \<mapsto> \<lparr> ws = 1, playerID = ''2222'', name = Some ''Player 2222'',
                         location = None, opponentID = Some ''1111'', lastState = None \<rparr>],
       readyState = (\<lambda>_. CLOSED)(0 := OPEN, 1 := OPEN), timers = Map.empty,
       nextWs = 2, nextTimer = 0 \<rparr>"
  unfolding paired_def
  by (simp add: two_players_eq step_def handleMessage_def wsToClient_get_def
      handle_game_start_def plField_def toOpponent_def emptyPayload_def clients_ref_def
      upd_client_def Let_def)

lemma paired_invariant: "invariant paired"
proof -
  have "reachable paired"
    unfolding paired_def by (rule reachable_step [OF reachable_scenarios(1)])
  then show ?thesis by (rule reachable_invariant)
qed

lemma paired_opponent:
  "reachableOpponent paired ''1111'' = Some 1" "lastOnlineBroadcast paired ''1111'' = Some 5000"
  by (simp_all add: paired_eq reachableOpponent_def clients_get_def clients_ref_def isOpen_def)


section \<open>One session per identifier\<close>

text \<open>
  Claim C1. In every reachable state: a registered socket whose session carries a four-digit
  identifier is the holder of that identifier in the live-session map, so two registered
  sockets (open or not) never carry the same four-digit identifier;
  \<open>generateUniquePlayerID\<close> returns no identifier of the used set and no key of the
  live-session map, so \<open>player:request_id\<close> binds an identifier that nobody holds; and
  \<open>player:reconnect\<close> with an identifier held by a session on another socket closes that
  socket (it is no longer open), unregisters it and stores the sender's session under the
  identifier.
\<close>

theorem one_session_per_identifier:
  assumes "reachable st"
  shows "(\<forall>w r c. wsToClient_get st w = Some (r, c) \<and> is4digit (playerID c)
            \<longrightarrow> clients_ref st (playerID c) = Some w)
       \<and> (\<forall>w1 w2 r1 r2 c1 c2.
             wsToClient_get st w1 = Some (r1, c1) \<and> wsToClient_get st w2 = Some (r2, c2)
             \<and> playerID c1 = playerID c2 \<and> is4digit (playerID c1)
            \<longrightarrow> w1 = w2)
       \<and> (\<forall>rnd pid st1 saved.
             generateUniquePlayerID rnd st = Inr (pid, st1, saved)
            \<longrightarrow> pid \<notin> set (usedPlayerIDs st) \<and> clients_ref st pid = None)
       \<and> (\<forall>w r client pl now rnd st' out.
             wsToClient_get st w = Some (r, client)
             \<and> handle_request_id w r pl now rnd st = Inr (st', out)
            \<longrightarrow> (\<exists>pid. clients_ref st pid = None \<and> clients_ref st' pid = Some r
                       \<and> wsToClient st' w = Some r))
       \<and> (\<forall>w r client pl now pid prev.
             wsToClient_get st w = Some (r, client) \<and> plField pl p_playerID = Some pid
             \<and> validID (Some pid) \<and> clients_get st pid = Some prev \<and> ws prev \<noteq> w
            \<longrightarrow> \<not> isOpen (fst (handle_reconnect w r pl now st)) (ws prev)
                \<and> wsToClient (fst (handle_reconnect w r pl now st)) (ws prev) = None
                \<and> clients_ref (fst (handle_reconnect w r pl now st)) pid = Some r
                \<and> wsToClient (fst (handle_reconnect w r pl now st)) w = Some r)"
proof -
  from assms have i: "invariant st" by (rule reachable_invariant)
  note d = invariantD [OF i]
  have holder: "clients_ref st (playerID c) = Some w"
    if "wsToClient_get st w = Some (r, c)" "is4digit (playerID c)" for w r c
  proof -
    note reg = session_registered [OF i that(1)]
    from that(2) have "\<not> startsWith (playerID c) ''temp_''"
      using temp_not_4digit by blast
    from d(8) [OF reg(2) reg(3) this] show ?thesis .
  qed
  have unique: "w1 = w2"
    if "wsToClient_get st w1 = Some (r1, c1)" "wsToClient_get st w2 = Some (r2, c2)"
       "playerID c1 = playerID c2" "is4digit (playerID c1)" for w1 w2 r1 r2 c1 c2
    using holder [OF that(1) that(4)] holder [OF that(2)] that(3,4) by simp
  have alloc: "pid \<notin> set (usedPlayerIDs st) \<and> clients_ref st pid = None"
    if "generateUniquePlayerID rnd st = Inr (pid, st1, saved)" for rnd pid st1 saved
    using generate_fresh(1,2) [OF that] by simp
  have req: "\<exists>pid. clients_ref st pid = None \<and> clients_ref st' pid = Some r
                 \<and> wsToClient st' w = Some r"
    if "wsToClient_get st w = Some (r, client)"
       "handle_request_id w r pl now rnd st = Inr (st', out)" for w r client pl now rnd st' out
  proof -
    from that(2) obtain pid st1 saved where
      g: "generateUniquePlayerID rnd st = Inr (pid, st1, saved)"
      by (cases "generateUniquePlayerID rnd st") (auto simp add: handle_request_id_def)
    from that(2) g have "clients_ref st' pid = Some r \<and> wsToClient st' w = Some r"
      by (auto simp add: handle_request_id_def Let_def)
    with generate_fresh(2) [OF g] show ?thesis by blast
  qed
  have rec: "\<not> isOpen (fst (handle_reconnect w r pl now st)) (ws prev)
             \<and> wsToClient (fst (handle_reconnect w r pl now st)) (ws prev) = None
             \<and> clients_ref (fst (handle_reconnect w r pl now st)) pid = Some r
             \<and> wsToClient (fst (handle_reconnect w r pl now st)) w = Some r"
    if "wsToClient_get st w = Some (r, client)" "plField pl p_playerID = Some pid"
       "validID (Some pid)" "clients_get st pid = Some prev" "ws prev \<noteq> w"
    for w r client pl now pid prev
    using that by (simp add: handle_reconnect_def Let_def isOpen_def closePrev_def)
  have 1: "\<forall>w r c. wsToClient_get st w = Some (r, c) \<and> is4digit (playerID c)
            \<longrightarrow> clients_ref st (playerID c) = Some w"
    using holder by blast
  have 2: "\<forall>w1 w2 r1 r2 c1 c2.
             wsToClient_get st w1 = Some (r1, c1) \<and> wsToClient_get st w2 = Some (r2, c2)
             \<and> playerID c1 = playerID c2 \<and> is4digit (playerID c1)
            \<longrightarrow> w1 = w2"
    using unique by blast
  have 3: "\<forall>rnd pid st1 saved.
             generateUniquePlayerID rnd st = Inr (pid, st1, saved)
            \<longrightarrow> pid \<notin> set (usedPlayerIDs st) \<and> clients_ref st pid = None"
    using alloc by blast
  have 4: "\<forall>w r client pl now rnd st' out.
             wsToClient_get st w = Some (r, client)
             \<and> handle_request_id w r pl now rnd st = Inr (st', out)
            \<longrightarrow> (\<exists>pid. clients_ref st pid = None \<and> clients_ref st' pid = Some r
                       \<and> wsToClient st' w = Some r)"
    using req by blast
  have 5: "\<forall>w r client pl now pid prev.
             wsToClient_get st w = Some (r, client) \<and> plField pl p_playerID = Some pid
             \<and> validID (Some pid) \<and> clients_get st pid = Some prev \<and> ws prev \<noteq> w
            \<longrightarrow> \<not> isOpen (fst (handle_reconnect w r pl now st)) (ws prev)
                \<and> wsToClient (fst (handle_reconnect w r pl now st)) (ws prev) = None
                \<and> clients_ref (fst (handle_reconnect w r pl now st)) pid = Some r
                \<and> wsToClient (fst (handle_reconnect w r pl now st)) w = Some r"
    using rec by blast
  from 1 2 3 4 5 show ?thesis by (intro conjI)
qed


lemma with_guest_generate:
  "generateUniquePlayerID rnd0 with_guest
     = Inr (''1234'', used_add ''1234'' with_guest, [SaveUsedIDs])"
proof -
  have t: "toString (rnd0 0 mod 9000 + 1000) = ''1234''"
    by (simp add: rnd0_def toString.simps digitChar_def)
  have "''1234'' \<notin> set (usedPlayerIDs with_guest)" "\<not> clients_has with_guest ''1234''"
    by (simp_all add: with_guest_eq clients_has_def clients_ref_def)
  then have "genLoop rnd0 with_guest 0 = Inr ''1234''"
    using t by (simp add: genLoop.simps [of rnd0 with_guest 0])
  then show ?thesis
    by (simp add: generateUniquePlayerID_def)
qed

theorem one_session_per_identifier_witness:
  "reachable with_guest
   \<and> wsToClient_get with_guest 0
       = Some (0, \<lparr> ws = 0, playerID = ''1111'', name = Some ''Player 1111'',
                     location = None, opponentID = None, lastState = None \<rparr>)
   \<and> is4digit ''1111''
   \<and> clients_ref with_guest ''1111'' = Some 0
   \<and> generateUniquePlayerID rnd0 with_guest
       = Inr (''1234'', used_add ''1234'' with_guest, [SaveUsedIDs])
   \<and> ''1234'' \<notin> set (usedPlayerIDs with_guest) \<and> clients_ref with_guest ''1234'' = None
   \<and> wsToClient_get with_guest 2 = Some (2, guest)
   \<and> \<not> isOpen (fst (handle_reconnect 2 2 (payload (reconnectMsg ''1111'')) 7000 with_guest)) 0
   \<and> wsToClient (fst (handle_reconnect 2 2 (payload (reconnectMsg ''1111'')) 7000 with_guest)) 0
       = None
   \<and> clients_ref (fst (handle_reconnect 2 2 (payload (reconnectMsg ''1111'')) 7000 with_guest))
        ''1111'' = Some 2"
proof -
  let ?c = "\<lparr> ws = 0, playerID = ''1111'', name = Some ''Player 1111'',
               location = None, opponentID = None, lastState = None \<rparr>"
  note th = one_session_per_identifier [OF reachable_scenarios(2)]
  have s0: "wsToClient_get with_guest 0 = Some (0, ?c)"
    by (simp add: with_guest_eq wsToClient_get_def)
  have d: "is4digit ''1111''"
    by (simp add: is4digit_def isDigit_def)
  note th1 = th [THEN conjunct1, rule_format]
  note th3 = th [THEN conjunct2, THEN conjunct2, THEN conjunct1, rule_format]
  note th5 = th [THEN conjunct2, THEN conjunct2, THEN conjunct2, THEN conjunct2, rule_format]
  from th1 [of 0 0 ?c] s0 d have a: "clients_ref with_guest ''1111'' = Some 0"
    by simp
  from th3 [OF with_guest_generate]
  have b: "''1234'' \<notin> set (usedPlayerIDs with_guest) \<and> clients_ref with_guest ''1234'' = None" .
  have p: "plField (payload (reconnectMsg ''1111'')) p_playerID = Some ''1111''"
    "validID (Some ''1111'')"
    by (simp_all add: reconnectMsg_def plField_def emptyPayload_def validID_def d)
  have prev: "clients_get with_guest ''1111'' = Some ?c" "ws ?c \<noteq> 2"
    by (simp_all add: with_guest_eq clients_get_def clients_ref_def)
  from th5 [of 2 2 guest "payload (reconnectMsg ''1111'')" "''1111''" ?c 7000]
    with_guest_session p prev
  have c: "\<not> isOpen (fst (handle_reconnect 2 2 (payload (reconnectMsg ''1111'')) 7000 with_guest)) 0
     \<and> wsToClient (fst (handle_reconnect 2 2 (payload (reconnectMsg ''1111'')) 7000 with_guest)) 0
          = None
     \<and> clients_ref (fst (handle_reconnect 2 2 (payload (reconnectMsg ''1111'')) 7000 with_guest))
          ''1111'' = Some 2"
    by simp
  from reachable_scenarios(2) s0 d a with_guest_generate b with_guest_session c
  show ?thesis by simp
qed

section \<open>Reconnecting with an identifier\<close>

text \<open>
  Claim C2. For a \<open>player:reconnect\<close> message on a registered socket \<open>w\<close>, the only
  test is the format of the payload's \<open>playerID\<close>. When it is four digits, whatever the
  set of used identifiers holds: the offline timer registered for the identifier, if any,
  is cleared and unregistered; a session held in the live-session map under the identifier
  on another socket has that socket closed and unregistered; the sender's session is
  stored under the identifier, carries it, and stays registered for \<open>w\<close>; the identifier
  is in the used set and \<open>saveUsedIDs\<close> is called; \<open>player:reconnected\<close> is sent on \<open>w\<close>.
  When the identifier is absent or not four digits, \<open>player:invalid_id\<close> is sent on \<open>w\<close>
  and the state is unchanged.
\<close>

theorem reconnect_validation:
  assumes "wsToClient_get st w = Some (r, client)"
  shows "(validID (plField pl p_playerID) \<longrightarrow>
           (\<exists>st' out pid.
              plField pl p_playerID = Some pid
              \<and> handleMessage w \<lparr>msg_type = Some ''player:reconnect'', payload = pl\<rparr> now rnd st
                  = Inr (st', out)
              \<and> offlineTimers st' pid = None
              \<and> (\<forall>h. offlineTimers st pid = Some h \<longrightarrow> timers st' h = None)
              \<and> (\<forall>prev. clients_get st pid = Some prev \<and> ws prev \<noteq> w \<longrightarrow>
                     \<not> isOpen st' (ws prev) \<and> wsToClient st' (ws prev) = None)
              \<and> clients_ref st' pid = Some r \<and> wsToClient st' w = Some r
              \<and> map_option playerID (heap st' r) = Some pid
              \<and> pid \<in> set (usedPlayerIDs st')
              \<and> SaveUsedIDs \<in> set out
              \<and> Send w (PlayerReconnected pid) \<in> set out))
       \<and> (\<not> validID (plField pl p_playerID) \<longrightarrow>
             handleMessage w \<lparr>msg_type = Some ''player:reconnect'', payload = pl\<rparr> now rnd st
               = Inr (st, [Send w (PlayerInvalidId ''Invalid player ID format'')]))"
proof (intro conjI impI)
  assume v: "validID (plField pl p_playerID)"
  then obtain pid where pid: "plField pl p_playerID = Some pid"
    by (auto simp add: validID_def split: option.splits)
  have h: "heap st r = Some client"
    using assms(1) by (auto simp add: wsToClient_get_def split: option.splits)
  let ?res = "handle_reconnect w r pl now st"
  have hm: "handleMessage w \<lparr>msg_type = Some ''player:reconnect'', payload = pl\<rparr> now rnd st
              = Inr (fst ?res, snd ?res)"
    using assms by (simp add: handleMessage_kind)
  have fs: "fst ?res = fst (sendPlayerOnline now pid
                (used_add pid (wsToClient_set w r (clients_set pid r
                   (upd_client r (\<lambda>c. c\<lparr>playerID := pid,
                          name := Some (orStr (plField pl p_name) (''Player '' @ pid))\<rparr>)
                      (closePrev w pid (cancelOffline pid st)))))))"
    using v pid by (simp add: handle_reconnect_def Let_def)
  have sn: "SaveUsedIDs \<in> set (snd ?res)" "Send w (PlayerReconnected pid) \<in> set (snd ?res)"
    using v pid by (simp_all add: handle_reconnect_def Let_def)
  have 1: "offlineTimers (fst ?res) pid = None"
    by (simp add: fs)
  have 2: "timers (fst ?res) h = None" if "offlineTimers st pid = Some h" for h
    using that by (simp add: fs)
  have 3: "\<not> isOpen (fst ?res) (ws prev) \<and> wsToClient (fst ?res) (ws prev) = None"
    if "clients_get st pid = Some prev" "ws prev \<noteq> w" for prev
    using that by (simp add: fs isOpen_def closePrev_def)
  have 4: "clients_ref (fst ?res) pid = Some r" "wsToClient (fst ?res) w = Some r"
    "map_option playerID (heap (fst ?res) r) = Some pid" "pid \<in> set (usedPlayerIDs (fst ?res))"
    using h by (simp_all add: fs)
  show "\<exists>st' out pid.
          plField pl p_playerID = Some pid
          \<and> handleMessage w \<lparr>msg_type = Some ''player:reconnect'', payload = pl\<rparr> now rnd st
              = Inr (st', out)
          \<and> offlineTimers st' pid = None
          \<and> (\<forall>h. offlineTimers st pid = Some h \<longrightarrow> timers st' h = None)
          \<and> (\<forall>prev. clients_get st pid = Some prev \<and> ws prev \<noteq> w \<longrightarrow>
                 \<not> isOpen st' (ws prev) \<and> wsToClient st' (ws prev) = None)
          \<and> clients_ref st' pid = Some r \<and> wsToClient st' w = Some r
          \<and> map_option playerID (heap st' r) = Some pid
          \<and> pid \<in> set (usedPlayerIDs st')
          \<and> SaveUsedIDs \<in> set out
          \<and> Send w (PlayerReconnected pid) \<in> set out"
    using pid hm 1 2 3 4 sn by blast
next
  assume "\<not> validID (plField pl p_playerID)"
  then show "handleMessage w \<lparr>msg_type = Some ''player:reconnect'', payload = pl\<rparr> now rnd st
               = Inr (st, [Send w (PlayerInvalidId ''Invalid player ID format'')])"
    using assms by (auto simp add: handleMessage_kind handle_reconnect_def split: option.splits)
qed

theorem reconnect_validation_witness:
  "wsToClient_get with_guest 2 = Some (2, guest)
   \<and> validID (Some ''2222'')
   \<and> (case handleMessage 2 (reconnectMsg ''2222'') 7000 rnd0 with_guest of
         Inl err \<Rightarrow> False
       | Inr (st', out) \<Rightarrow>
           clients_ref st' ''2222'' = Some 2 \<and> wsToClient st' 2 = Some 2
           \<and> \<not> isOpen st' 1 \<and> wsToClient st' 1 = None
           \<and> ''2222'' \<in> set (usedPlayerIDs st')
           \<and> SaveUsedIDs \<in> set out \<and> Send 2 (PlayerReconnected ''2222'') \<in> set out)
   \<and> \<not> validID (Some ''12a4'')
   \<and> handleMessage 2 (reconnectMsg ''12a4'') 7000 rnd0 with_guest
       = Inr (with_guest, [Send 2 (PlayerInvalidId ''Invalid player ID format'')])"
proof -
  have s: "wsToClient_get with_guest 2 = Some (2, guest)"
    by (rule with_guest_session)
  have v: "validID (Some ''2222'')" "\<not> validID (Some ''12a4'')"
    by (simp_all add: validID_def is4digit_def isDigit_def)
  have prev: "clients_get with_guest ''2222''
                = Some \<lparr> ws = 1, playerID = ''2222'', name = Some ''Player 2222'',
                          location = None, opponentID = None, lastState = None \<rparr>"
    by (simp add: with_guest_eq clients_get_def clients_ref_def)
  have good: "case handleMessage 2 (reconnectMsg ''2222'') 7000 rnd0 with_guest of
         Inl err \<Rightarrow> False
       | Inr (st', out) \<Rightarrow>
           clients_ref st' ''2222'' = Some 2 \<and> wsToClient st' 2 = Some 2
           \<and> \<not> isOpen st' 1 \<and> wsToClient st' 1 = None
           \<and> ''2222'' \<in> set (usedPlayerIDs st')
           \<and> SaveUsedIDs \<in> set out \<and> Send 2 (PlayerReconnected ''2222'') \<in> set out"
    using reconnect_validation
            [OF s, of "Some (emptyPayload\<lparr>p_playerID := Some ''2222''\<rparr>)" 7000 rnd0]
          v(1) prev
    by (auto simp add: reconnectMsg_def plField_def emptyPayload_def)
  have bad: "handleMessage 2 (reconnectMsg ''12a4'') 7000 rnd0 with_guest
       = Inr (with_guest, [Send 2 (PlayerInvalidId ''Invalid player ID format'')])"
    using reconnect_validation
            [OF s, of "Some (emptyPayload\<lparr>p_playerID := Some ''12a4''\<rparr>)" 7000 rnd0]
          v(2)
    by (simp add: reconnectMsg_def plField_def emptyPayload_def)
  from s v good bad show ?thesis by blast
qed

section \<open>Offline debounce\<close>

lemma send_quiet:
  "ev \<noteq> PlayerOffline x \<Longrightarrow> Send w (PlayerOffline x) \<notin> set (send st pid ev)"
  by (auto simp add: send_def split: option.splits)

lemma notifyOpponent_quiet:
  "ev \<noteq> PlayerOffline x \<Longrightarrow> Send w (PlayerOffline x) \<notin> set (notifyOpponent st c ev)"
  by (auto simp add: notifyOpponent_def send_quiet split: option.splits)

lemma sendPlayerOnline_quiet:
  "Send w (PlayerOffline x) \<notin> set (snd (sendPlayerOnline now pid st))"
  by (auto simp add: sendPlayerOnline_def Let_def notifyOpponent_quiet split: option.splits)

lemma resumeOpponent_quiet:
  "Send w (PlayerOffline x) \<notin> set (resumeOpponent st r pid)"
  by (auto simp add: resumeOpponent_def send_quiet split: option.splits)

lemma fold_used_add_fields [simp]:
  "clients (fold used_add ids st) = clients st"
  "timers (fold used_add ids st) = timers st"
  "nextTimer (fold used_add ids st) = nextTimer st"
  by (induction ids arbitrary: st) simp_all

text \<open>What a handled message can do to the timers, the keys of the map and the output.\<close>

lemma handle_request_id_effects:
  assumes "handle_request_id w r pl now rnd st = Inr (st', out)"
  shows "timers st' = timers st" "nextTimer st' = nextTimer st"
    "clients_ref st pid \<noteq> None \<Longrightarrow> clients_ref st' pid \<noteq> None"
    "Send w' (PlayerOffline x) \<notin> set out"
proof -
  from assms obtain nid st1 saved where
    g: "generateUniquePlayerID rnd st = Inr (nid, st1, saved)"
    by (cases "generateUniquePlayerID rnd st") (auto simp add: handle_request_id_def)
  note fr = generate_fresh [OF g]
  from assms g fr(3,4) show "timers st' = timers st" "nextTimer st' = nextTimer st"
    "clients_ref st pid \<noteq> None \<Longrightarrow> clients_ref st' pid \<noteq> None"
    "Send w' (PlayerOffline x) \<notin> set out"
    by (auto simp add: handle_request_id_def Let_def sendPlayerOnline_quiet)
qed

lemma handle_reconnect_effects:
  "timers (fst (handle_reconnect w r pl now st)) h = Some q \<Longrightarrow> timers st h = Some q"
  "nextTimer (fst (handle_reconnect w r pl now st)) = nextTimer st"
  "clients_ref st pid \<noteq> None \<Longrightarrow> clients_ref (fst (handle_reconnect w r pl now st)) pid \<noteq> None"
  "Send w' (PlayerOffline x) \<notin> set (snd (handle_reconnect w r pl now st))"
  by (auto simp add: handle_reconnect_def Let_def sendPlayerOnline_quiet resumeOpponent_quiet
      split: option.splits if_splits)

lemma quiet_handlers_effects:
  "timers (fst (handle_update_name r pl st)) = timers st"
  "nextTimer (fst (handle_update_name r pl st)) = nextTimer st"
  "clients_ref (fst (handle_update_name r pl st)) = clients_ref st"
  "Send w' (PlayerOffline x) \<notin> set (snd (handle_update_name r pl st))"
  "timers (fst (handle_state_update r pl st)) = timers st"
  "nextTimer (fst (handle_state_update r pl st)) = nextTimer st"
  "clients_ref (fst (handle_state_update r pl st)) = clients_ref st"
  "snd (handle_state_update r pl st) = []"
  "timers (fst (handle_update_location r pl st)) = timers st"
  "nextTimer (fst (handle_update_location r pl st)) = nextTimer st"
  "clients_ref (fst (handle_update_location r pl st)) = clients_ref st"
  "snd (handle_update_location r pl st) = []"
  "timers (fst (handle_game_start w r client pl st)) = timers st"
  "nextTimer (fst (handle_game_start w r client pl st)) = nextTimer st"
  "clients_ref (fst (handle_game_start w r client pl st)) = clients_ref st"
  "Send w' (PlayerOffline x) \<notin> set (snd (handle_game_start w r client pl st))"
  "Send w' (PlayerOffline x) \<notin> set (snd (handle_score_update client pl st))"
  "ev \<noteq> PlayerOffline x \<Longrightarrow> Send w' (PlayerOffline x) \<notin> set (snd (forwardTo client t ev st))"
  "Send w' (PlayerOffline x) \<notin> set (snd (handle_reset client pl st))"
  "Send w' (PlayerOffline x) \<notin> set (snd (handle_get_all client st))"
  "Send w' (PlayerOffline x) \<notin> set (snd (handle_search client pl st))"
  by (auto simp add: handle_update_name_def handle_state_update_def handle_update_location_def
      handle_game_start_def handle_score_update_def forwardTo_def handle_reset_def
      handle_get_all_def handle_search_def Let_def notifyOpponent_quiet send_quiet
      split: option.splits)


lemma handleMessage_effects:
  assumes res: "handleMessage w m now rnd st = Inr (st', out)"
  shows "timers st' h = Some q \<Longrightarrow> timers st h = Some q"
    and "nextTimer st' = nextTimer st"
    and "clients_ref st pid \<noteq> None \<Longrightarrow> clients_ref st' pid \<noteq> None"
    and "Send w' (PlayerOffline x) \<notin> set out"
proof -
  have "(timers st' h = Some q \<longrightarrow> timers st h = Some q)
        \<and> nextTimer st' = nextTimer st
        \<and> (clients_ref st pid \<noteq> None \<longrightarrow> clients_ref st' pid \<noteq> None)
        \<and> Send w' (PlayerOffline x) \<notin> set out"
  proof (cases "wsToClient_get st w")
    case None
    with res show ?thesis by (simp add: handleMessage_def)
  next
    case (Some rc)
    obtain r client where rc: "rc = (r, client)" by (cases rc)
    with Some have s: "wsToClient_get st w = Some (r, client)" by simp
    let ?k = "kindOf (case msg_type m of None \<Rightarrow> [] | Some t \<Rightarrow> t)"
    show ?thesis
    proof (cases ?k)
      case RequestId
      with res s have "handle_request_id w r (payload m) now rnd st = Inr (st', out)"
        by (simp add: handleMessage_def)
      from handle_request_id_effects [OF this] show ?thesis by simp
    next
      case Reconnect
      with res s have "handle_reconnect w r (payload m) now st = (st', out)"
        by (simp add: handleMessage_def)
      then have "st' = fst (handle_reconnect w r (payload m) now st)"
        "out = snd (handle_reconnect w r (payload m) now st)"
        by simp_all
      with handle_reconnect_effects
             [where w = w and r = r and pl = "payload m" and now = now and st = st]
      show ?thesis by blast
    next
      case UpdateName
      with res s have "handle_update_name r (payload m) st = (st', out)"
        by (simp add: handleMessage_def)
      then have "st' = fst (handle_update_name r (payload m) st)"
        "out = snd (handle_update_name r (payload m) st)"
        by simp_all
      then show ?thesis by (simp add: quiet_handlers_effects)
    next
      case StateUpdate
      with res s have "handle_state_update r (payload m) st = (st', out)"
        by (simp add: handleMessage_def)
      then have "st' = fst (handle_state_update r (payload m) st)"
        "out = snd (handle_state_update r (payload m) st)"
        by simp_all
      then show ?thesis by (simp add: quiet_handlers_effects)
    next
      case UpdateLocation
      with res s have "handle_update_location r (payload m) st = (st', out)"
        by (simp add: handleMessage_def)
      then have "st' = fst (handle_update_location r (payload m) st)"
        "out = snd (handle_update_location r (payload m) st)"
        by simp_all
      then show ?thesis by (simp add: quiet_handlers_effects)
    next
      case GameStart
      with res s have "handle_game_start w r client (payload m) st = (st', out)"
        by (simp add: handleMessage_def)
      then have "st' = fst (handle_game_start w r client (payload m) st)"
        "out = snd (handle_game_start w r client (payload m) st)"
        by simp_all
      then show ?thesis by (simp add: quiet_handlers_effects)
    next
      case ScoreUpdate
      with res s have "handle_score_update client (payload m) st = (st', out)"
        by (simp add: handleMessage_def)
      then have "st' = fst (handle_score_update client (payload m) st)"
        "out = snd (handle_score_update client (payload m) st)"
        by simp_all
      then show ?thesis by (simp add: quiet_handlers_effects unchanged_handlers)
    next
      case ApplyBrisks
      with res s obtain p where p: "payload m = Some p"
        and "forwardTo client (p_opponentID p)
                            (GameApplyBrisks (p_briskCount p) (playerID client)) st = (st', out)"
        by (cases "payload m") (simp_all add: handleMessage_def handle_apply_brisks_def)
      then have "st' = fst (forwardTo client (p_opponentID p)
                            (GameApplyBrisks (p_briskCount p) (playerID client)) st)"
        "out = snd (forwardTo client (p_opponentID p)
                            (GameApplyBrisks (p_briskCount p) (playerID client)) st)"
        by simp_all
      then show ?thesis by (simp add: quiet_handlers_effects unchanged_handlers)
    next
      case OpponentUndo
      with res s obtain p where p: "payload m = Some p"
        and "forwardTo client (p_opponentID p)
                            (GameOpponentUndo (p_points p) (p_briskValue p) (playerID client)) st = (st', out)"
        by (cases "payload m") (simp_all add: handleMessage_def handle_opponent_undo_def)
      then have "st' = fst (forwardTo client (p_opponentID p)
                            (GameOpponentUndo (p_points p) (p_briskValue p) (playerID client)) st)"
        "out = snd (forwardTo client (p_opponentID p)
                            (GameOpponentUndo (p_points p) (p_briskValue p) (playerID client)) st)"
        by simp_all
      then show ?thesis by (simp add: quiet_handlers_effects unchanged_handlers)
    next
      case Reset
      with res s have "handle_reset client (payload m) st = (st', out)"
        by (simp add: handleMessage_def)
      then have "st' = fst (handle_reset client (payload m) st)"
        "out = snd (handle_reset client (payload m) st)"
        by simp_all
      then show ?thesis by (simp add: quiet_handlers_effects unchanged_handlers)
    next
      case GetAll
      with res s have "handle_get_all client st = (st', out)"
        by (simp add: handleMessage_def)
      then have "st' = fst (handle_get_all client st)" "out = snd (handle_get_all client st)"
        by simp_all
      then show ?thesis by (simp add: quiet_handlers_effects unchanged_handlers)
    next
      case Search
      with res s have "handle_search client (payload m) st = (st', out)"
        by (simp add: handleMessage_def)
      then have "st' = fst (handle_search client (payload m) st)"
        "out = snd (handle_search client (payload m) st)"
        by simp_all
      then show ?thesis by (simp add: quiet_handlers_effects unchanged_handlers)
    next
      case Unknown
      with res s show ?thesis by (simp add: handleMessage_def)
    qed
  qed
  then show "timers st' h = Some q \<Longrightarrow> timers st h = Some q"
    and "nextTimer st' = nextTimer st"
    and "clients_ref st pid \<noteq> None \<Longrightarrow> clients_ref st' pid \<noteq> None"
    and "Send w' (PlayerOffline x) \<notin> set out"
    by simp_all
qed

lemma onClose_effects:
  "clients (onClose w st) = clients st"
  "nextTimer st \<le> nextTimer (onClose w st)"
  "timers (onClose w st) h = Some q \<Longrightarrow> timers st h = Some q \<or> h = nextTimer st"
  by (auto simp add: onClose_def Let_def split: option.splits if_splits prod.splits)


lemma offlineExpired_effects:
  "timers (fst (offlineExpired pid st)) = timers st"
  "nextTimer (fst (offlineExpired pid st)) = nextTimer st"
  "clients_ref (fst (offlineExpired pid st)) = (clients_ref st)(pid := None)"
  "snd (offlineExpired pid st) = []"
  by (simp_all add: offlineExpired_def Let_def sendPlayerOffline_def clients_get_def)

lemma step_cancelled_stays:
  assumes "timers st h = None" "h < nextTimer st"
  shows "timers (fst (step st e)) h = None \<and> h < nextTimer (fst (step st e))"
proof (cases e)
  case (Connect stamp)
  with assms show ?thesis by (simp add: step_def onConnection_def Let_def)
next
  case (Receive w m now rnd)
  show ?thesis
  proof (cases "handleMessage w m now rnd st")
    case (Inl err)
    with Receive assms show ?thesis by (simp add: step_def)
  next
    case (Inr res)
    obtain st' out where r: "res = (st', out)" by (cases res)
    with Inr have hm: "handleMessage w m now rnd st = Inr (st', out)" by simp
    have "timers st' h = None"
    proof (cases "timers st' h")
      case (Some q)
      from handleMessage_effects(1) [OF hm Some] assms(1) show ?thesis by simp
    qed simp
    with handleMessage_effects(2) [OF hm] assms Receive Inr r show ?thesis
      by (simp add: step_def)
  qed
next
  case (Closing w)
  with assms show ?thesis by (simp add: step_def)
next
  case (Close w)
  let ?st0 = "st\<lparr>readyState := (readyState st)(w := CLOSED)\<rparr>"
  have "timers (onClose w ?st0) h = None"
  proof (cases "timers (onClose w ?st0) h")
    case (Some q)
    from onClose_effects(3) [OF Some] assms show ?thesis by simp
  qed simp
  moreover have "h < nextTimer (onClose w ?st0)"
    using onClose_effects(2) [of ?st0 w] assms(2) by simp
  ultimately show ?thesis
    using Close assms by (simp add: step_def)
next
  case (Timeout h')
  with assms show ?thesis
    by (cases "timers st h'") (simp_all add: step_def offlineExpired_effects)
next
  case (Loaded ids)
  with assms show ?thesis by (simp add: step_def)
qed

lemma run_cancelled_stays:
  assumes "timers st h = None" "h < nextTimer st"
  shows "timers (fst (run st es)) h = None"
  using assms
proof (induction es arbitrary: st)
  case Nil
  then show ?case by simp
next
  case (Cons e es)
  from step_cancelled_stays [OF Cons.prems]
  have "timers (fst (step st e)) h = None" "h < nextTimer (fst (step st e))"
    by simp_all
  from Cons.IH [OF this] show ?case
    by (simp add: split_def)
qed

lemma step_unbinds_on_timeout:
  assumes "clients_ref st pid \<noteq> None" "clients_ref (fst (step st e)) pid = None"
  shows "\<exists>h. e = Timeout h \<and> timers st h = Some pid"
proof (cases e)
  case (Connect stamp)
  with assms show ?thesis by (simp add: step_def onConnection_def Let_def clients_ref_def)
next
  case (Receive w m now rnd)
  show ?thesis
  proof (cases "handleMessage w m now rnd st")
    case (Inl err)
    with Receive assms show ?thesis by (auto simp add: step_def split: if_splits)
  next
    case (Inr res)
    obtain st' out where r: "res = (st', out)" by (cases res)
    with Inr have hm: "handleMessage w m now rnd st = Inr (st', out)" by simp
    from handleMessage_effects(3) [OF hm assms(1)] assms Receive Inr r show ?thesis
      by (auto simp add: step_def split: if_splits)
  qed
next
  case (Closing w)
  with assms show ?thesis by (auto simp add: step_def split: if_splits)
next
  case (Close w)
  with assms onClose_effects(1) [of w "st\<lparr>readyState := (readyState st)(w := CLOSED)\<rparr>"]
  show ?thesis by (auto simp add: step_def clients_ref_def split: if_splits)
next
  case (Timeout h)
  show ?thesis
  proof (cases "timers st h")
    case None
    with Timeout assms show ?thesis by (simp add: step_def)
  next
    case (Some q)
    with Timeout assms have "q = pid"
      by (auto simp add: step_def offlineExpired_effects split: if_splits)
    with Some Timeout show ?thesis by simp
  qed
next
  case (Loaded ids)
  with assms show ?thesis by (simp add: step_def clients_ref_def)
qed

lemma step_no_offline: "Send w (PlayerOffline x) \<notin> set (snd (step st e))"
proof (cases e)
  case (Connect stamp)
  then show ?thesis by (simp add: step_def onConnection_def Let_def)
next
  case (Receive w' m now rnd)
  show ?thesis
  proof (cases "handleMessage w' m now rnd st")
    case (Inl err)
    with Receive show ?thesis by (simp add: step_def)
  next
    case (Inr res)
    obtain st' out where r: "res = (st', out)" by (cases res)
    with Inr have hm: "handleMessage w' m now rnd st = Inr (st', out)" by simp
    from handleMessage_effects(4) [OF hm] Receive Inr r show ?thesis
      by (simp add: step_def)
  qed
next
  case (Closing w')
  then show ?thesis by (simp add: step_def)
next
  case (Close w')
  then show ?thesis by (simp add: step_def)
next
  case (Timeout h)
  then show ?thesis
    by (cases "timers st h") (simp_all add: step_def offlineExpired_effects)
next
  case (Loaded ids)
  then show ?thesis by (simp add: step_def)
qed

lemma run_no_offline: "Send w (PlayerOffline x) \<notin> set (snd (run st es))"
proof (induction es arbitrary: st)
  case Nil
  then show ?case by simp
next
  case (Cons e es)
  from step_no_offline [of w x st e] Cons.IH [of "fst (step st e)"] show ?case
    by (simp add: split_def)
qed


lemma close_schedules:
  assumes i: "invariant st" and s: "wsToClient_get st w = Some (r, client)"
    and f: "is4digit (playerID client)"
  shows "timers (fst (step st (Close w))) (nextTimer st) = Some (playerID client)"
    "offlineTimers (fst (step st (Close w))) (playerID client) = Some (nextTimer st)"
    "clients_ref (fst (step st (Close w))) (playerID client) = Some w"
    "snd (step st (Close w)) = []"
proof -
  note reg = session_registered [OF i s]
  note d = invariantD [OF i]
  let ?pid = "playerID client"
  let ?st0 = "st\<lparr>readyState := (readyState st)(w := CLOSED)\<rparr>"
  have g: "w < nextWs st" "readyState st w \<noteq> CLOSED"
    using d(2) [OF reg(3)] d(5) [OF reg(2)] by simp_all
  have nt: "\<not> startsWith ?pid ''temp_''"
    using f temp_not_4digit by blast
  from d(8) [OF reg(2) reg(3) nt] have h: "clients_ref st ?pid = Some w" .
  have s0: "wsToClient_get ?st0 w = Some (w, client)"
    using reg by (simp add: wsToClient_get_def)
  have c: "clients_has (wsToClient_delete w ?st0) ?pid"
    "clients_get (wsToClient_delete w ?st0) ?pid = Some client"
    using h reg(3) by (simp_all add: clients_has_def clients_get_def)
  have w: "ws client = w"
    using d(1) [OF reg(3)] .
  have "onClose w ?st0 = scheduleOffline ?pid (wsToClient_delete w ?st0)"
    using s0 nt c w by (simp add: onClose_def Let_def)
  then have e: "step st (Close w) = (scheduleOffline ?pid (wsToClient_delete w ?st0), [])"
    using g by (simp add: step_def)
  show "timers (fst (step st (Close w))) (nextTimer st) = Some ?pid"
    "offlineTimers (fst (step st (Close w))) ?pid = Some (nextTimer st)"
    "clients_ref (fst (step st (Close w))) ?pid = Some w"
    "snd (step st (Close w)) = []"
    using h by (simp_all add: e)
qed

lemma reconnect_cancels:
  assumes i: "invariant st" and t: "timers st h = Some pid"
    and s: "wsToClient_get st w = Some (r, client)"
    and p: "plField pl p_playerID = Some pid" "validID (Some pid)"
  shows "timers (fst (step st (Receive w \<lparr>msg_type = Some ''player:reconnect'', payload = pl\<rparr>
                                  now rnd))) h = None"
    "nextTimer (fst (step st (Receive w \<lparr>msg_type = Some ''player:reconnect'', payload = pl\<rparr>
                                  now rnd))) = nextTimer st"
    "clients_ref (fst (step st (Receive w \<lparr>msg_type = Some ''player:reconnect'', payload = pl\<rparr>
                                  now rnd))) pid = Some r"
proof -
  note reg = session_registered [OF i s]
  note d = invariantD [OF i]
  have g: "w < nextWs st" "readyState st w \<noteq> CLOSED"
    using d(2) [OF reg(3)] d(5) [OF reg(2)] by simp_all
  have e: "step st (Receive w \<lparr>msg_type = Some ''player:reconnect'', payload = pl\<rparr> now rnd)
             = handle_reconnect w r pl now st"
    using g s by (simp add: step_def handleMessage_kind)
  have fs: "fst (handle_reconnect w r pl now st)
      = fst (sendPlayerOnline now pid
          (used_add pid (wsToClient_set w r (clients_set pid r
             (upd_client r (\<lambda>c. c\<lparr>playerID := pid,
                    name := Some (orStr (plField pl p_name) (''Player '' @ pid))\<rparr>)
                (closePrev w pid (cancelOffline pid st)))))))"
    using p by (simp add: handle_reconnect_def Let_def)
  from d(10) [OF t] have o: "offlineTimers st pid = Some h" .
  show "timers (fst (step st (Receive w \<lparr>msg_type = Some ''player:reconnect'', payload = pl\<rparr>
                                  now rnd))) h = None"
    "nextTimer (fst (step st (Receive w \<lparr>msg_type = Some ''player:reconnect'', payload = pl\<rparr>
                                  now rnd))) = nextTimer st"
    "clients_ref (fst (step st (Receive w \<lparr>msg_type = Some ''player:reconnect'', payload = pl\<rparr>
                                  now rnd))) pid = Some r"
    using o by (simp_all add: e fs)
qed

lemma paired_closed_eq:
  "paired_closed =
     \<lparr> clients = [(''1111'', 0), (''2222'', 1)], usedPlayerIDs = [''1111'', ''2222''],
       wsToClient = [0 \<mapsto> 0],
       offlineTimers = [''2222'' \<mapsto> 0],
       lastOnlineBroadcast = [''1111'' \<mapsto> 5000, ''2222'' \<mapsto> 6000],
       heap = [0 \<mapsto> \<lparr> ws = 0, playerID = ''1111'', name = Some ''Player 1111'',
                         location = None, opponentID = Some ''2222'', lastState = None \<rparr>,
               1 \<mapsto> \<lparr> ws = 1, playerID = ''2222'', name = Some ''Player 2222'',
                         location = None, opponentID = Some ''1111'', lastState = None \<rparr>],
       readyState = (\<lambda>_. CLOSED)(0 := OPEN, 1 := CLOSED), timers = [0 \<mapsto> ''2222''],
       nextWs = 2, nextTimer = 1 \<rparr>"
  unfolding paired_closed_def
  by (simp add: paired_eq step_def onClose_def wsToClient_get_def wsToClient_delete_def
      startsWith_def clients_has_def clients_ref_def clients_get_def scheduleOffline_def
      fun_upd_twist)

lemma paired_closed_guest_eq:
  "paired_closed_guest =
     \<lparr> clients = [(''1111'', 0), (''2222'', 1)], usedPlayerIDs = [''1111'', ''2222''],
       wsToClient = [0 \<mapsto> 0, 2 \<mapsto> 2],
       offlineTimers = [''2222'' \<mapsto> 0],
       lastOnlineBroadcast = [''1111'' \<mapsto> 5000, ''2222'' \<mapsto> 6000],
       heap = [0 \<mapsto> \<lparr> ws = 0, playerID = ''1111'', name = Some ''Player 1111'',
                         location = None, opponentID = Some ''2222'', lastState = None \<rparr>,
               1 \<mapsto> \<lparr> ws = 1, playerID = ''2222'', name = Some ''Player 2222'',
                         location = None, opponentID = Some ''1111'', lastState = None \<rparr>,
               2 \<mapsto> guest],
       readyState = (\<lambda>_. CLOSED)(0 := OPEN, 1 := CLOSED, 2 := OPEN),
       timers = [0 \<mapsto> ''2222''],
       nextWs = 3, nextTimer = 1 \<rparr>"
  unfolding paired_closed_guest_def
  by (simp add: paired_closed_eq step_def onConnection_def guest_def)

lemma paired_closed_reachable: "reachable paired" "reachable paired_closed_guest"
proof -
  show a: "reachable paired"
    unfolding paired_def by (rule reachable_step [OF reachable_scenarios(1)])
  show "reachable paired_closed_guest"
    unfolding paired_closed_guest_def paired_closed_def
    by (intro reachable_step a)
qed



lemma timeout_silent: "snd (step st (Timeout h)) = []"
  by (simp add: step_def offlineExpired_def sendPlayerOffline_def clients_get_def Let_def
      split: option.splits)

lemma paired_closed_expiry:
  "clients_ref paired_closed ''2222'' = Some 1"
  "reachableOpponent paired_closed ''2222'' = Some 0"
  "step paired_closed (Timeout 0)
     = (paired_closed\<lparr>clients := [(''1111'', 0)], offlineTimers := Map.empty,
                       lastOnlineBroadcast := [''1111'' \<mapsto> 5000], timers := Map.empty\<rparr>, [])"
  by (simp_all add: paired_closed_eq step_def offlineExpired_def sendPlayerOffline_def
      clients_get_def clients_ref_def clients_delete_def reachableOpponent_def isOpen_def Let_def)

text \<open>
  Claim C3 (offline suppression).  In every reachable state:

  \<^item> when the socket of a session that holds a four-digit identifier closes, the close handler
    starts an offline timer for the identifier, keeps the identifier in the live-session map
    and sends nothing;
  \<^item> when, while the timer \<open>h\<close> of identifier \<open>pid\<close> is pending, a registered socket sends a
    valid \<open>player:reconnect\<close> for \<open>pid\<close>, the timer is cancelled, it stays cancelled in every
    continuation (a late \<open>Timeout h\<close> does nothing), and \<open>pid\<close> is bound to the session of the
    reconnecting socket;
  \<^item> no run from the state sends a \<open>player:offline\<close> event to any socket, so none is sent for
    that disconnect;
  \<^item> an identifier leaves the live-session map only in the step in which its offline timer
    expires.

  The expiry of the timer is the event \<open>Timeout h\<close>; the delay of 2000 ms after which the
  runtime delivers it is not part of the state.  The third item holds of every run because the
  expiry callback deletes the identifier from \<open>clients\<close> before \<open>sendPlayerOffline\<close> looks it up
  there (lemmas \<open>timeout_silent\<close> and \<open>paired_closed_expiry\<close>).
\<close>

theorem offline_suppression:
  assumes "reachable st"
  shows "(\<forall>w r client.
            wsToClient_get st w = Some (r, client) \<and> is4digit (playerID client)
           \<longrightarrow> timers (fst (step st (Close w))) (nextTimer st) = Some (playerID client)
               \<and> offlineTimers (fst (step st (Close w))) (playerID client) = Some (nextTimer st)
               \<and> clients_ref (fst (step st (Close w))) (playerID client) = Some w
               \<and> snd (step st (Close w)) = [])
       \<and> (\<forall>h pid w r client pl now rnd.
            timers st h = Some pid \<and> wsToClient_get st w = Some (r, client)
            \<and> plField pl p_playerID = Some pid \<and> validID (Some pid)
           \<longrightarrow> timers (fst (step st (Receive w
                    \<lparr>msg_type = Some ''player:reconnect'', payload = pl\<rparr> now rnd))) h = None
               \<and> clients_ref (fst (step st (Receive w
                    \<lparr>msg_type = Some ''player:reconnect'', payload = pl\<rparr> now rnd))) pid = Some r
               \<and> (\<forall>es. timers (fst (run (fst (step st (Receive w
                    \<lparr>msg_type = Some ''player:reconnect'', payload = pl\<rparr> now rnd))) es)) h
                       = None))
       \<and> (\<forall>es w x. Send w (PlayerOffline x) \<notin> set (snd (run st es)))
       \<and> (\<forall>e pid. clients_ref st pid \<noteq> None \<and> clients_ref (fst (step st e)) pid = None
           \<longrightarrow> (\<exists>h. e = Timeout h \<and> timers st h = Some pid))"
proof -
  from assms have i: "invariant st" by (rule reachable_invariant)
  have 1: "\<forall>w r client.
            wsToClient_get st w = Some (r, client) \<and> is4digit (playerID client)
           \<longrightarrow> timers (fst (step st (Close w))) (nextTimer st) = Some (playerID client)
               \<and> offlineTimers (fst (step st (Close w))) (playerID client) = Some (nextTimer st)
               \<and> clients_ref (fst (step st (Close w))) (playerID client) = Some w
               \<and> snd (step st (Close w)) = []"
    using close_schedules [OF i] by blast
  have 2: "\<forall>h pid w r client pl now rnd.
            timers st h = Some pid \<and> wsToClient_get st w = Some (r, client)
            \<and> plField pl p_playerID = Some pid \<and> validID (Some pid)
           \<longrightarrow> timers (fst (step st (Receive w
                    \<lparr>msg_type = Some ''player:reconnect'', payload = pl\<rparr> now rnd))) h = None
               \<and> clients_ref (fst (step st (Receive w
                    \<lparr>msg_type = Some ''player:reconnect'', payload = pl\<rparr> now rnd))) pid = Some r
               \<and> (\<forall>es. timers (fst (run (fst (step st (Receive w
                    \<lparr>msg_type = Some ''player:reconnect'', payload = pl\<rparr> now rnd))) es)) h
                       = None)"
  proof (intro allI impI, elim conjE)
    fix h pid w r client pl now rnd
    assume a: "timers st h = Some pid" "wsToClient_get st w = Some (r, client)"
      "plField pl p_playerID = Some pid" "validID (Some pid)"
    let ?st2 = "fst (step st (Receive w \<lparr>msg_type = Some ''player:reconnect'', payload = pl\<rparr>
                                now rnd))"
    note rc = reconnect_cancels [OF i a, of now rnd]
    have "h < nextTimer ?st2"
      using invariantD(9) [OF i a(1)] rc(2) by simp
    from run_cancelled_stays [OF rc(1) this] rc(1) rc(3)
    show "timers ?st2 h = None \<and> clients_ref ?st2 pid = Some r
          \<and> (\<forall>es. timers (fst (run ?st2 es)) h = None)"
      by simp
  qed
  have 3: "\<forall>es w x. Send w (PlayerOffline x) \<notin> set (snd (run st es))"
    using run_no_offline by simp
  have 4: "\<forall>e pid. clients_ref st pid \<noteq> None \<and> clients_ref (fst (step st e)) pid = None
           \<longrightarrow> (\<exists>h. e = Timeout h \<and> timers st h = Some pid)"
    using step_unbinds_on_timeout by blast
  from 1 2 3 4 show ?thesis by (intro conjI)
qed

theorem offline_suppression_witness:
  "reachable paired \<and> reachable paired_closed_guest
   \<and> timers (fst (step paired (Close 1))) 0 = Some ''2222''
   \<and> offlineTimers (fst (step paired (Close 1))) ''2222'' = Some 0
   \<and> clients_ref (fst (step paired (Close 1))) ''2222'' = Some 1
   \<and> snd (step paired (Close 1)) = []
   \<and> timers paired_closed_guest 0 = Some ''2222''
   \<and> timers (fst (step paired_closed_guest (Receive 2 (reconnectMsg ''2222'') 7000 rnd0))) 0
       = None
   \<and> clients_ref (fst (step paired_closed_guest (Receive 2 (reconnectMsg ''2222'') 7000 rnd0)))
        ''2222'' = Some 2
   \<and> timers (fst (run (fst (step paired_closed_guest
                                (Receive 2 (reconnectMsg ''2222'') 7000 rnd0))) [Timeout 0])) 0
       = None
   \<and> Send 0 (PlayerOffline ''2222'')
       \<notin> set (snd (run paired_closed_guest
                         [Receive 2 (reconnectMsg ''2222'') 7000 rnd0, Timeout 0]))
   \<and> clients_ref paired_closed ''2222'' = Some 1
   \<and> clients_ref (fst (step paired_closed (Timeout 0))) ''2222'' = None
   \<and> timers paired_closed 0 = Some ''2222''"
proof -
  let ?c = "\<lparr> ws = 1, playerID = ''2222'', name = Some ''Player 2222'',
               location = None, opponentID = Some ''1111'', lastState = None \<rparr>"
  let ?pl = "Some (emptyPayload\<lparr>p_playerID := Some ''2222''\<rparr>)"
  note A = offline_suppression [OF paired_closed_reachable(1)]
  note B = offline_suppression [OF paired_closed_reachable(2)]
  have rc: "reachable paired_closed"
    unfolding paired_closed_def by (rule reachable_step [OF paired_closed_reachable(1)])
  note C = offline_suppression [OF rc]
  have n: "nextTimer paired = 0"
    by (simp add: paired_eq)
  have f: "wsToClient_get paired 1 = Some (1, ?c)" "is4digit ''2222''"
    by (simp_all add: paired_eq wsToClient_get_def is4digit_def isDigit_def)
  from A [THEN conjunct1, rule_format, of 1 1 ?c] f n
  have 1: "timers (fst (step paired (Close 1))) 0 = Some ''2222''
     \<and> offlineTimers (fst (step paired (Close 1))) ''2222'' = Some 0
     \<and> clients_ref (fst (step paired (Close 1))) ''2222'' = Some 1
     \<and> snd (step paired (Close 1)) = []"
    by simp
  have g: "timers paired_closed_guest 0 = Some ''2222''"
    "wsToClient_get paired_closed_guest 2 = Some (2, guest)"
    "plField ?pl p_playerID = Some ''2222''" "validID (Some ''2222'')"
    by (simp_all add: paired_closed_guest_eq wsToClient_get_def plField_def emptyPayload_def
        validID_def is4digit_def isDigit_def)
  from B [THEN conjunct2, THEN conjunct1, rule_format,
          where h = 0 and pid = "''2222''" and w = 2 and r = 2 and client = guest
            and pl = ?pl and now = 7000 and rnd = rnd0] g
  have 2: "timers (fst (step paired_closed_guest (Receive 2 (reconnectMsg ''2222'') 7000 rnd0))) 0
       = None
   \<and> clients_ref (fst (step paired_closed_guest (Receive 2 (reconnectMsg ''2222'') 7000 rnd0)))
        ''2222'' = Some 2
   \<and> (\<forall>es. timers (fst (run (fst (step paired_closed_guest
                                (Receive 2 (reconnectMsg ''2222'') 7000 rnd0))) es)) 0 = None)"
    by (simp add: reconnectMsg_def)
  from 2 have c2: "timers (fst (run (fst (step paired_closed_guest
                                (Receive 2 (reconnectMsg ''2222'') 7000 rnd0))) [Timeout 0])) 0
       = None"
    by blast
  from B [THEN conjunct2, THEN conjunct2, THEN conjunct1, rule_format]
  have 3: "Send 0 (PlayerOffline ''2222'')
       \<notin> set (snd (run paired_closed_guest
                         [Receive 2 (reconnectMsg ''2222'') 7000 rnd0, Timeout 0]))" .
  have k: "clients_ref paired_closed ''2222'' = Some 1"
    "clients_ref (fst (step paired_closed (Timeout 0))) ''2222'' = None"
    using paired_closed_expiry(1) by (simp_all add: paired_closed_expiry(3) clients_ref_def)
  from C [THEN conjunct2, THEN conjunct2, THEN conjunct2, rule_format,
          where e = "Timeout 0" and pid = "''2222''"] k
  have 4: "timers paired_closed 0 = Some ''2222''"
    by simp
  from paired_closed_reachable 1 g(1) 2 c2 3 k 4 show ?thesis
    by (intro conjI) simp_all
qed


section \<open>The online announcement and its debounce\<close>

lemma isOpen_lastOnline [simp]:
  "isOpen (st\<lparr>lastOnlineBroadcast := lb\<rparr>) = isOpen st"
  by (simp add: isOpen_def fun_eq_iff)

lemma send_lastOnline [simp]:
  "send (st\<lparr>lastOnlineBroadcast := lb\<rparr>) = send st"
  by (simp add: send_def fun_eq_iff cong: option.case_cong if_cong)

lemma notifyOpponent_lastOnline [simp]:
  "notifyOpponent (st\<lparr>lastOnlineBroadcast := lb\<rparr>) = notifyOpponent st"
  by (simp add: notifyOpponent_def fun_eq_iff cong: option.case_cong if_cong)

lemma send_to_open_session:
  assumes i: "invariant st" and o: "clients_get st oid = Some opp" "isOpen st (ws opp)"
  shows "send st (playerID opp) ev = [Send (ws opp) ev]"
proof -
  note d = invariantD [OF i]
  from o(1) obtain r where r: "clients_ref st oid = Some r" "heap st r = Some opp"
    by (cases "clients_ref st oid") (simp_all add: clients_get_def)
  from d(1) [OF r(2)] have w: "ws opp = r" .
  with o(2) have "readyState st r = OPEN" by (simp add: isOpen_def)
  from d(12) [OF r this] have "clients_ref st (playerID opp) = Some r" .
  with r(2) have "clients_get st (playerID opp) = Some opp"
    by (simp add: clients_get_def)
  with o(2) show ?thesis by (simp add: send_def)
qed

lemma online_targets:
  assumes i: "invariant st"
  shows "(case clients_get st pid of None \<Rightarrow> []
          | Some client \<Rightarrow> notifyOpponent st client ev)
           = (case reachableOpponent st pid of None \<Rightarrow> [] | Some wo \<Rightarrow> [Send wo ev])"
proof (cases "clients_get st pid")
  case None
  then show ?thesis by (simp add: reachableOpponent_def)
next
  case (Some client)
  show ?thesis
  proof (cases "opponentID client")
    case None
    with Some show ?thesis by (simp add: reachableOpponent_def notifyOpponent_def)
  next
    case o: (Some oid)
    show ?thesis
    proof (cases "oid = []")
      case True
      with Some o show ?thesis by (simp add: reachableOpponent_def notifyOpponent_def)
    next
      case False
      show ?thesis
      proof (cases "clients_get st oid")
        case None
        with Some o False show ?thesis by (simp add: reachableOpponent_def notifyOpponent_def)
      next
        case opp: (Some opponent)
        show ?thesis
        proof (cases "isOpen st (ws opponent)")
          case True
          from send_to_open_session [OF i opp True]
          show ?thesis using Some o False opp True
            by (simp add: reachableOpponent_def notifyOpponent_def)
        next
          case f: False
          with Some o False opp show ?thesis
            by (simp add: reachableOpponent_def notifyOpponent_def)
        qed
      qed
    qed
  qed
qed

lemma reachableOpponent_lastOnline [simp]:
  "reachableOpponent (st\<lparr>lastOnlineBroadcast := lb\<rparr>) = reachableOpponent st"
  by (simp add: reachableOpponent_def fun_eq_iff cong: option.case_cong if_cong)

lemma sendPlayerOnline_sent:
  assumes i: "invariant st"
    and late: "now - (case lastOnlineBroadcast st pid of None \<Rightarrow> 0 | Some t \<Rightarrow> t) \<ge> 1500"
  shows "sendPlayerOnline now pid st
           = (st\<lparr>lastOnlineBroadcast := (lastOnlineBroadcast st)(pid \<mapsto> now)\<rparr>,
              case reachableOpponent st pid of None \<Rightarrow> [] | Some wo \<Rightarrow> [Send wo (PlayerOnline pid)])"
  using late online_targets [OF i, where pid = pid and ev = "PlayerOnline pid"]
  by (simp add: sendPlayerOnline_def Let_def ONLINE_BROADCAST_DEBOUNCE_MS_def
      cong: option.case_cong)

lemma sendPlayerOnline_suppressed:
  assumes "now - (case lastOnlineBroadcast st pid of None \<Rightarrow> 0 | Some t \<Rightarrow> t) < 1500"
  shows "sendPlayerOnline now pid st = (st, [])"
  using assms by (simp add: sendPlayerOnline_def Let_def ONLINE_BROADCAST_DEBOUNCE_MS_def)

text \<open>
  Claim C4. \<open>sendPlayerOnline\<close> for the identifier \<open>pid\<close> at clock reading \<open>now\<close>, in a state
  that satisfies the invariant of the reachable states. When the last announcement recorded
  for \<open>pid\<close> is less than 1500 ms old, nothing is sent and nothing changes. When it is
  1500 ms old or more, the time is recorded and the only message is \<open>player:online\<close> on the
  socket of the declared opponent, sent exactly when that opponent is a key of the
  live-session map with an open socket. When the opponent can be reached and the first
  announcement is not itself suppressed, a second announcement \<open>gap\<close> ms later brings the
  total to one message for \<open>gap < 1500\<close> and to two for \<open>gap \<ge> 1500\<close> (one for 1000, two
  for 2000).
\<close>

theorem online_debounce:
  assumes i: "invariant st"
  shows "(\<forall>last. lastOnlineBroadcast st pid = Some last \<and> now - last < 1500
            \<longrightarrow> sendPlayerOnline now pid st = (st, []))
       \<and> (\<forall>last. lastOnlineBroadcast st pid = Some last \<and> now - last \<ge> 1500
            \<longrightarrow> snd (sendPlayerOnline now pid st)
                  = (case reachableOpponent st pid of
                       None \<Rightarrow> [] | Some wo \<Rightarrow> [Send wo (PlayerOnline pid)])
                \<and> lastOnlineBroadcast (fst (sendPlayerOnline now pid st)) pid = Some now)
       \<and> (\<forall>wo gap.
             reachableOpponent st pid = Some wo
             \<and> now - (case lastOnlineBroadcast st pid of None \<Rightarrow> 0 | Some t \<Rightarrow> t) \<ge> 1500
            \<longrightarrow> snd (sendPlayerOnline now pid st)
                  @ snd (sendPlayerOnline (now + gap) pid (fst (sendPlayerOnline now pid st)))
                = (if gap < 1500 then [Send wo (PlayerOnline pid)]
                   else [Send wo (PlayerOnline pid), Send wo (PlayerOnline pid)]))"
proof (intro conjI allI impI)
  fix last
  assume "lastOnlineBroadcast st pid = Some last \<and> now - last < 1500"
  then show "sendPlayerOnline now pid st = (st, [])"
    by (simp add: sendPlayerOnline_suppressed)
next
  fix last
  assume a: "lastOnlineBroadcast st pid = Some last \<and> now - last \<ge> 1500"
  then have "now - (case lastOnlineBroadcast st pid of None \<Rightarrow> 0 | Some t \<Rightarrow> t) \<ge> 1500"
    by simp
  from sendPlayerOnline_sent [OF i this]
  show "snd (sendPlayerOnline now pid st)
          = (case reachableOpponent st pid of
               None \<Rightarrow> [] | Some wo \<Rightarrow> [Send wo (PlayerOnline pid)])"
    and "lastOnlineBroadcast (fst (sendPlayerOnline now pid st)) pid = Some now"
    by simp_all
next
  fix wo gap
  assume a: "reachableOpponent st pid = Some wo
             \<and> now - (case lastOnlineBroadcast st pid of None \<Rightarrow> 0 | Some t \<Rightarrow> t) \<ge> 1500"
  let ?st1 = "st\<lparr>lastOnlineBroadcast := (lastOnlineBroadcast st)(pid \<mapsto> now)\<rparr>"
  from a sendPlayerOnline_sent [OF i, where now = now and pid = pid]
  have first: "sendPlayerOnline now pid st = (?st1, [Send wo (PlayerOnline pid)])"
    by simp
  have i1: "invariant ?st1"
    by (rule invariant_frame [OF i]) simp_all
  have second: "snd (sendPlayerOnline (now + gap) pid ?st1)
                  = (if gap < 1500 then [] else [Send wo (PlayerOnline pid)])"
  proof (cases "gap < 1500")
    case True
    then have "(now + gap) - (case lastOnlineBroadcast ?st1 pid of None \<Rightarrow> 0 | Some t \<Rightarrow> t) < 1500"
      by simp
    from sendPlayerOnline_suppressed [OF this] True show ?thesis by simp
  next
    case False
    then have "(now + gap) - (case lastOnlineBroadcast ?st1 pid of None \<Rightarrow> 0 | Some t \<Rightarrow> t) \<ge> 1500"
      by simp
    from sendPlayerOnline_sent [OF i1 this] a False show ?thesis by simp
  qed
  from first second
  show "snd (sendPlayerOnline now pid st)
          @ snd (sendPlayerOnline (now + gap) pid (fst (sendPlayerOnline now pid st)))
        = (if gap < 1500 then [Send wo (PlayerOnline pid)]
           else [Send wo (PlayerOnline pid), Send wo (PlayerOnline pid)])"
    by simp
qed


theorem online_debounce_witness:
  "invariant paired
   \<and> reachableOpponent paired ''1111'' = Some 1
   \<and> lastOnlineBroadcast paired ''1111'' = Some 5000
   \<and> sendPlayerOnline 6000 ''1111'' paired = (paired, [])
   \<and> snd (sendPlayerOnline 7000 ''1111'' paired) = [Send 1 (PlayerOnline ''1111'')]
   \<and> snd (sendPlayerOnline 7000 ''1111'' paired)
       @ snd (sendPlayerOnline 8000 ''1111'' (fst (sendPlayerOnline 7000 ''1111'' paired)))
       = [Send 1 (PlayerOnline ''1111'')]
   \<and> snd (sendPlayerOnline 7000 ''1111'' paired)
       @ snd (sendPlayerOnline 9000 ''1111'' (fst (sendPlayerOnline 7000 ''1111'' paired)))
       = [Send 1 (PlayerOnline ''1111''), Send 1 (PlayerOnline ''1111'')]"
proof -
  note early = online_debounce [OF paired_invariant, where pid = "''1111''" and now = 6000,
      THEN conjunct1, rule_format, where last = 5000]
  note late = online_debounce [OF paired_invariant, where pid = "''1111''" and now = 7000,
      THEN conjunct2, THEN conjunct1, rule_format, where last = 5000]
  note twice = online_debounce [OF paired_invariant, where pid = "''1111''" and now = 7000,
      THEN conjunct2, THEN conjunct2, rule_format, where wo = 1]
  have a: "sendPlayerOnline 6000 ''1111'' paired = (paired, [])"
    using early paired_opponent by simp
  have b: "snd (sendPlayerOnline 7000 ''1111'' paired) = [Send 1 (PlayerOnline ''1111'')]"
    using late paired_opponent by simp
  have c: "snd (sendPlayerOnline 7000 ''1111'' paired)
       @ snd (sendPlayerOnline 8000 ''1111'' (fst (sendPlayerOnline 7000 ''1111'' paired)))
       = [Send 1 (PlayerOnline ''1111'')]"
    using twice [where gap = 1000] paired_opponent by simp
  have d: "snd (sendPlayerOnline 7000 ''1111'' paired)
       @ snd (sendPlayerOnline 9000 ''1111'' (fst (sendPlayerOnline 7000 ''1111'' paired)))
       = [Send 1 (PlayerOnline ''1111''), Send 1 (PlayerOnline ''1111'')]"
    using twice [where gap = 2000] paired_opponent by simp
  from paired_invariant paired_opponent a b c d show ?thesis by simp
qed

section \<open>The forwarding kinds\<close>

text \<open>
  For \<open>game:apply_brisks\<close>, \<open>game:opponent_undo\<close> and \<open>game:reset\<close> from a registered
  socket whose session carries \<open>pid\<close>: when the payload's target is a bound, open session
  other than the sender, the event is sent to the target with \<open>pid\<close> as \<open>from\<close>; when the
  target is missing, empty or \<open>pid\<close> itself, nothing is sent and the state is unchanged.
\<close>

lemma forwarding_kinds:
  assumes "wsToClient_get st w = Some (r, client)" and "playerID client = pid"
  shows "bound st wt tid \<Longrightarrow> tid \<noteq> [] \<Longrightarrow> tid \<noteq> pid \<Longrightarrow> p_opponentID p = Some tid \<Longrightarrow>
           handleMessage w \<lparr>msg_type = Some ''game:apply_brisks'', payload = Some p\<rparr> now rnd st
             = Inr (st, [Send wt (GameApplyBrisks (p_briskCount p) pid)])
         \<and> handleMessage w \<lparr>msg_type = Some ''game:opponent_undo'', payload = Some p\<rparr> now rnd st
             = Inr (st, [Send wt (GameOpponentUndo (p_points p) (p_briskValue p) pid)])
         \<and> handleMessage w \<lparr>msg_type = Some ''game:reset'', payload = Some p\<rparr> now rnd st
             = Inr (st, [Send wt (GameReset pid)])"
    and "p_opponentID p = None \<or> p_opponentID p = Some [] \<or> p_opponentID p = Some pid \<Longrightarrow>
           handleMessage w \<lparr>msg_type = Some ''game:apply_brisks'', payload = Some p\<rparr> now rnd st
             = Inr (st, [])
         \<and> handleMessage w \<lparr>msg_type = Some ''game:opponent_undo'', payload = Some p\<rparr> now rnd st
             = Inr (st, [])
         \<and> handleMessage w \<lparr>msg_type = Some ''game:reset'', payload = Some p\<rparr> now rnd st
             = Inr (st, [])"
proof -
  assume t: "bound st wt tid" "tid \<noteq> []" "tid \<noteq> pid" "p_opponentID p = Some tid"
  from t(1) obtain target where
    "clients_get st tid = Some target" "ws target = wt" "isOpen st wt"
    by (rule bound_session)
  then show "handleMessage w \<lparr>msg_type = Some ''game:apply_brisks'', payload = Some p\<rparr> now rnd st
             = Inr (st, [Send wt (GameApplyBrisks (p_briskCount p) pid)])
         \<and> handleMessage w \<lparr>msg_type = Some ''game:opponent_undo'', payload = Some p\<rparr> now rnd st
             = Inr (st, [Send wt (GameOpponentUndo (p_points p) (p_briskValue p) pid)])
         \<and> handleMessage w \<lparr>msg_type = Some ''game:reset'', payload = Some p\<rparr> now rnd st
             = Inr (st, [Send wt (GameReset pid)])"
    using assms t
    by (simp add: handleMessage_kind handle_apply_brisks_def handle_opponent_undo_def
        handle_reset_def forwardTo_def plField_def bound_send)
next
  assume "p_opponentID p = None \<or> p_opponentID p = Some [] \<or> p_opponentID p = Some pid"
  then show "handleMessage w \<lparr>msg_type = Some ''game:apply_brisks'', payload = Some p\<rparr> now rnd st
             = Inr (st, [])
         \<and> handleMessage w \<lparr>msg_type = Some ''game:opponent_undo'', payload = Some p\<rparr> now rnd st
             = Inr (st, [])
         \<and> handleMessage w \<lparr>msg_type = Some ''game:reset'', payload = Some p\<rparr> now rnd st
             = Inr (st, [])"
    using assms
    by (auto simp add: handleMessage_kind handle_apply_brisks_def handle_opponent_undo_def
        handle_reset_def forwardTo_def plField_def)
qed

text \<open>
  Claim C5 names a fourth kind, \<open>game:apply_points\<close>. The \<open>switch\<close> of \<open>handleMessage\<close>
  has no such label: with 1111 and 2222 both bound and open, the message from 1111 aimed
  at 2222 sends nothing and changes nothing, while \<open>game:apply_brisks\<close> with the same
  target is forwarded.
\<close>

theorem apply_points_not_forwarded:
  "bound two_players 0 ''1111'' \<and> bound two_players 1 ''2222''
   \<and> step two_players
        (Receive 0
           \<lparr>msg_type = Some ''game:apply_points'',
              payload = Some ((toOpponent ''2222'')\<lparr>p_points := Some 20\<rparr>)\<rparr> 7000 rnd0)
       = (two_players, [])
   \<and> step two_players
        (Receive 0
           \<lparr>msg_type = Some ''game:apply_brisks'',
              payload = Some ((toOpponent ''2222'')\<lparr>p_briskCount := Some 2\<rparr>)\<rparr> 7000 rnd0)
       = (two_players, [Send 1 (GameApplyBrisks (Some 2) ''1111'')])"
proof -
  have s: "wsToClient_get two_players 0
             = Some (0, \<lparr> ws = 0, playerID = ''1111'', name = Some ''Player 1111'',
                           location = None, opponentID = None, lastState = None \<rparr>)"
    by (simp add: two_players_eq wsToClient_get_def)
  have g: "0 < nextWs two_players \<and> readyState two_players 0 \<noteq> CLOSED"
    by (simp add: two_players_eq)
  have a: "handleMessage 0
        \<lparr>msg_type = Some ''game:apply_points'',
           payload = Some ((toOpponent ''2222'')\<lparr>p_points := Some 20\<rparr>)\<rparr> 7000 rnd0 two_players
       = Inr (two_players, [])"
    using s by (simp add: handleMessage_kind)
  have b: "handleMessage 0
        \<lparr>msg_type = Some ''game:apply_brisks'',
           payload = Some ((toOpponent ''2222'')\<lparr>p_briskCount := Some 2\<rparr>)\<rparr> 7000 rnd0 two_players
       = Inr (two_players, [Send 1 (GameApplyBrisks (Some 2) ''1111'')])"
    using forwarding_kinds(1) [OF s, of "''1111''" 1 "''2222''"
            "(toOpponent ''2222'')\<lparr>p_briskCount := Some 2\<rparr>" 7000 rnd0]
          two_players_bound
    by (simp add: toOpponent_def emptyPayload_def)
  show ?thesis
    using a b g two_players_bound by (simp add: step_def)
qed


section \<open>Searching players\<close>


lemma str_includes_refl: "str_includes s s"
  by (cases s) (simp_all add: startsWith_def)



lemma searchEntry_id [simp]: "e_playerID (searchEntry st k c) = k"
  by (simp add: searchEntry_def)







section \<open>Listing all players\<close>

text \<open>
  Claim C7 says that the reply to \<open>players:get_all\<close> holds only sessions whose socket is
  open. \<open>getAllPlayers\<close> does not filter on the socket: after the socket of 2222 has
  closed, and before its offline timer runs, the list sent to 1111 holds 2222 with the
  online flag false.
\<close>

theorem list_all_players_counterexample:
  "bound closed_peer 0 ''1111''
   \<and> readyState closed_peer 1 = CLOSED
   \<and> handleMessage 0 getAllMsg 7000 rnd0 closed_peer
       = Inr (closed_peer,
              [Send 0 (PlayersList
                         [\<lparr> e_playerID = ''2222'', e_name = Some ''Player 2222'',
                             isOnline = False, e_location = None \<rparr>])])"
proof -
  have s: "wsToClient_get closed_peer 0
             = Some (0, \<lparr> ws = 0, playerID = ''1111'', name = Some ''Player 1111'',
                           location = None, opponentID = None, lastState = None \<rparr>)"
    by (simp add: closed_peer_eq wsToClient_get_def)
  have e: "clients_entries closed_peer
             = [(''1111'', \<lparr> ws = 0, playerID = ''1111'', name = Some ''Player 1111'',
                              location = None, opponentID = None, lastState = None \<rparr>),
                (''2222'', \<lparr> ws = 1, playerID = ''2222'', name = Some ''Player 2222'',
                              location = None, opponentID = None, lastState = None \<rparr>)]"
    by (simp add: closed_peer_eq clients_entries_def List.map_filter_simps)
  have r: "readyState closed_peer 1 = CLOSED"
    by (simp add: closed_peer_eq)
  have "handleMessage 0 getAllMsg 7000 rnd0 closed_peer
       = Inr (closed_peer,
              [Send 0 (PlayersList
                         [\<lparr> e_playerID = ''2222'', e_name = Some ''Player 2222'',
                             isOnline = False, e_location = None \<rparr>])])"
    using s r closed_peer_bound
    by (simp add: handleMessage_kind getAllMsg_def handle_get_all_def getAllPlayers_def e
        bound_send isOpen_def orStr_def toPoint_def)
  with r closed_peer_bound show ?thesis by simp
qed

text \<open>
  Claim C7, amended. For a bound requester \<open>pid\<close> on socket \<open>w\<close>, the reply to
  \<open>players:get_all\<close> lists every entry of the live-session map whose key is not \<open>pid\<close>,
  in the order of the map, whether or not its socket is open; each entry carries the
  identifier, the name, the online flag (true exactly when the session's socket is open)
  and the location.
\<close>

theorem list_all_players_entries:
  assumes "bound st w pid"
  shows "handleMessage w \<lparr>msg_type = Some ''players:get_all'', payload = pl\<rparr> now rnd st
           = Inr (st,
                  [Send w (PlayersList
                     (map (\<lambda>(k, c). \<lparr> e_playerID = k, e_name = Some (orStr (name c) []),
                                        isOnline = isOpen st (ws c),
                                        e_location = toPoint (location c) \<rparr>)
                        (filter (\<lambda>(k, c). k \<noteq> pid) (clients_entries st))))])"
proof -
  from assms obtain r client where
    s: "wsToClient_get st w = Some (r, client)" "playerID client = pid"
    by (rule bound_session)
  have "map (\<lambda>p. p\<lparr>e_name := Some (orStr (e_name p) [])\<rparr>) (getAllPlayers st (Some pid))
          = map (\<lambda>(k, c). \<lparr> e_playerID = k, e_name = Some (orStr (name c) []),
                              isOnline = isOpen st (ws c),
                              e_location = toPoint (location c) \<rparr>)
              (filter (\<lambda>(k, c). k \<noteq> pid) (clients_entries st))"
    by (simp add: getAllPlayers_def split_def)
  then show ?thesis
    using s assms by (simp add: handleMessage_kind handle_get_all_def bound_send)
qed

theorem list_all_players_entries_witness:
  "bound closed_peer 0 ''1111''
   \<and> handleMessage 0 \<lparr>msg_type = Some ''players:get_all'', payload = None\<rparr> 7000 rnd0 closed_peer
       = Inr (closed_peer,
              [Send 0 (PlayersList
                 (map (\<lambda>(k, c). \<lparr> e_playerID = k, e_name = Some (orStr (name c) []),
                                    isOnline = isOpen closed_peer (ws c),
                                    e_location = toPoint (location c) \<rparr>)
                    (filter (\<lambda>(k, c). k \<noteq> ''1111'') (clients_entries closed_peer))))])"
  using list_all_players_entries [OF closed_peer_bound, of None 7000 rnd0] closed_peer_bound
  by simp


section \<open>Score updates aimed at the sender itself\<close>

text \<open>
  Claim C9. The handler of \<open>game:score_update\<close> has no check against the sender naming
  itself: when a bound sender \<open>pid\<close> on socket \<open>w\<close> sends a score update whose
  \<open>opponentID\<close> is \<open>pid\<close>, the event \<open>game:opponent_scored\<close>, with the score (0 when the
  payload has none) and \<open>pid\<close>, is sent back on \<open>w\<close>. The handlers of
  \<open>game:apply_brisks\<close>, \<open>game:opponent_undo\<close> and \<open>game:reset\<close> drop the same payload:
  nothing is sent and the state is unchanged.
\<close>

theorem score_update_self_target:
  assumes "bound st w pid" and "pid \<noteq> []" and "p_opponentID p = Some pid"
  shows "handleMessage w \<lparr>msg_type = Some ''game:score_update'', payload = Some p\<rparr> now rnd st
           = Inr (st, [Send w (GameOpponentScored
                                 (case p_score p of None \<Rightarrow> 0 | Some s \<Rightarrow> s) pid)])
       \<and> handleMessage w \<lparr>msg_type = Some ''game:apply_brisks'', payload = Some p\<rparr> now rnd st
           = Inr (st, [])
       \<and> handleMessage w \<lparr>msg_type = Some ''game:opponent_undo'', payload = Some p\<rparr> now rnd st
           = Inr (st, [])
       \<and> handleMessage w \<lparr>msg_type = Some ''game:reset'', payload = Some p\<rparr> now rnd st
           = Inr (st, [])"
proof -
  from assms(1) obtain r client where
    s: "wsToClient_get st w = Some (r, client)" "playerID client = pid"
    by (rule bound_session)
  have reply: "send st pid ev = [Send w ev]" for ev
    using assms(1) by (rule bound_send)
  show ?thesis
    using s assms(2,3)
    by (simp add: handleMessage_kind handle_score_update_def handle_apply_brisks_def
        handle_opponent_undo_def handle_reset_def forwardTo_def plField_def reply)
qed

theorem score_update_self_target_witness:
  "bound two_players 0 ''1111''
   \<and> handleMessage 0
        \<lparr>msg_type = Some ''game:score_update'',
           payload = Some ((toOpponent ''1111'')\<lparr>p_score := Some 40\<rparr>)\<rparr> 7000 rnd0 two_players
       = Inr (two_players, [Send 0 (GameOpponentScored 40 ''1111'')])
   \<and> handleMessage 0
        \<lparr>msg_type = Some ''game:reset'',
           payload = Some ((toOpponent ''1111'')\<lparr>p_score := Some 40\<rparr>)\<rparr> 7000 rnd0 two_players
       = Inr (two_players, [])"
  using score_update_self_target
          [of two_players 0 "''1111''" "(toOpponent ''1111'')\<lparr>p_score := Some 40\<rparr>" 7000 rnd0]
  by (simp add: two_players_bound toOpponent_def emptyPayload_def)


section \<open>Messages from a socket that was never given an identifier\<close>

text \<open>
  Claim C10. The handlers do not check that the sender is bound. For a registered socket
  \<open>w\<close> whose session still carries the placeholder identity (a string starting with
  \<open>temp_\<close>, which never matches the four-digit format): a \<open>game:score_update\<close> aimed at
  a bound, open target is forwarded to the target with the placeholder as \<open>playerID\<close>; a
  \<open>game:start\<close> naming a session of the live-session map sets that session's \<open>opponentID\<close>
  to the placeholder; \<open>player:update_name\<close> stores the name; \<open>player:state_update\<close>
  stores the snapshot.
\<close>

theorem unbound_sender_processed:
  assumes "wsToClient_get st w = Some (r, client)"
      and "startsWith (playerID client) ''temp_''"
  shows "\<not> is4digit (playerID client)
      \<and> (\<forall>p tid wt. p_opponentID p = Some tid \<and> tid \<noteq> [] \<and> bound st wt tid \<longrightarrow>
            handleMessage w \<lparr>msg_type = Some ''game:score_update'', payload = Some p\<rparr> now rnd st
              = Inr (st, [Send wt (GameOpponentScored
                                     (case p_score p of None \<Rightarrow> 0 | Some s \<Rightarrow> s)
                                     (playerID client))]))
      \<and> (\<forall>p oid ro opponent.
            p_opponentID p = Some oid \<and> oid \<noteq> [] \<and> oid \<noteq> playerID client
            \<and> clients_ref st oid = Some ro \<and> heap st ro = Some opponent \<longrightarrow>
            (\<exists>st' out.
               handleMessage w \<lparr>msg_type = Some ''game:start'', payload = Some p\<rparr> now rnd st
                 = Inr (st', out)
               \<and> map_option opponentID (heap st' ro) = Some (Some (playerID client))))
      \<and> (\<forall>p n. p_name p = Some n \<and> n \<noteq> [] \<longrightarrow>
            (\<exists>st' out.
               handleMessage w \<lparr>msg_type = Some ''player:update_name'', payload = Some p\<rparr> now rnd st
                 = Inr (st', out)
               \<and> map_option name (heap st' r) = Some (Some n)))
      \<and> (\<forall>p. \<exists>st' out.
            handleMessage w \<lparr>msg_type = Some ''player:state_update'', payload = Some p\<rparr> now rnd st
              = Inr (st', out)
            \<and> map_option lastState (heap st' r)
                = Some (Some \<lparr>total = p_total p, history = p_history p\<rparr>))"
proof -
  have h: "heap st r = Some client"
    using assms(1) by (auto simp add: wsToClient_get_def split: option.splits)
  have a: "\<not> is4digit (playerID client)"
    using assms(2) by (rule temp_not_4digit)
  have b: "handleMessage w \<lparr>msg_type = Some ''game:score_update'', payload = Some p\<rparr> now rnd st
              = Inr (st, [Send wt (GameOpponentScored
                                     (case p_score p of None \<Rightarrow> 0 | Some s \<Rightarrow> s)
                                     (playerID client))])"
    if "p_opponentID p = Some tid" "tid \<noteq> []" "bound st wt tid" for p tid wt
    using that assms(1)
    by (simp add: handleMessage_kind handle_score_update_def plField_def bound_send)
  have c: "\<exists>st' out.
             handleMessage w \<lparr>msg_type = Some ''game:start'', payload = Some p\<rparr> now rnd st
               = Inr (st', out)
             \<and> map_option opponentID (heap st' ro) = Some (Some (playerID client))"
    if "p_opponentID p = Some oid" "oid \<noteq> []" "oid \<noteq> playerID client"
       "clients_ref st oid = Some ro" "heap st ro = Some opponent" for p oid ro opponent
    using that assms(1) h
    by (simp add: handleMessage_kind handle_game_start_def plField_def Let_def)
  have d: "\<exists>st' out.
             handleMessage w \<lparr>msg_type = Some ''player:update_name'', payload = Some p\<rparr> now rnd st
               = Inr (st', out)
             \<and> map_option name (heap st' r) = Some (Some n)"
    if "p_name p = Some n" "n \<noteq> []" for p n
    using that assms(1) h
    by (simp add: handleMessage_kind handle_update_name_def plField_def Let_def orStr_def)
  have e: "\<exists>st' out.
             handleMessage w \<lparr>msg_type = Some ''player:state_update'', payload = Some p\<rparr> now rnd st
               = Inr (st', out)
             \<and> map_option lastState (heap st' r)
                 = Some (Some \<lparr>total = p_total p, history = p_history p\<rparr>)" for p
    using assms(1) h
    by (simp add: handleMessage_kind handle_state_update_def plField_def)
  from a b c d e show ?thesis by blast
qed

theorem unbound_sender_processed_witness:
  "wsToClient_get with_guest 2 = Some (2, guest)
   \<and> startsWith (playerID guest) ''temp_''
   \<and> \<not> is4digit ''temp_c''
   \<and> handleMessage 2
        \<lparr>msg_type = Some ''game:score_update'',
           payload = Some ((toOpponent ''1111'')\<lparr>p_score := Some 40\<rparr>)\<rparr> 7000 rnd0 with_guest
       = Inr (with_guest, [Send 0 (GameOpponentScored 40 ''temp_c'')])
   \<and> (case handleMessage 2
               \<lparr>msg_type = Some ''game:start'', payload = Some (toOpponent ''1111'')\<rparr>
               7000 rnd0 with_guest of
         Inl err \<Rightarrow> False
       | Inr (st', out) \<Rightarrow> map_option opponentID (heap st' 0) = Some (Some ''temp_c''))"
proof -
  have s: "wsToClient_get with_guest 2 = Some (2, guest)"
    by (rule with_guest_session)
  have t: "startsWith (playerID guest) ''temp_''"
    by (simp add: guest_def startsWith_def)
  note th = unbound_sender_processed [OF s t, of 7000 rnd0]
  have pid: "playerID guest = ''temp_c''"
    by (simp add: guest_def)
  have a: "\<not> is4digit ''temp_c''"
    using th pid by simp
  have "p_opponentID ((toOpponent ''1111'')\<lparr>p_score := Some 40\<rparr>) = Some ''1111''
        \<and> ''1111'' \<noteq> [] \<and> bound with_guest 0 ''1111''"
    by (simp add: toOpponent_def emptyPayload_def with_guest_bound)
  with th have b: "handleMessage 2
        \<lparr>msg_type = Some ''game:score_update'',
           payload = Some ((toOpponent ''1111'')\<lparr>p_score := Some 40\<rparr>)\<rparr> 7000 rnd0 with_guest
       = Inr (with_guest, [Send 0 (GameOpponentScored
            (case p_score ((toOpponent ''1111'')\<lparr>p_score := Some 40\<rparr>) of None \<Rightarrow> 0 | Some s \<Rightarrow> s)
            (playerID guest))])"
    by blast
  have "p_opponentID (toOpponent ''1111'') = Some ''1111'' \<and> ''1111'' \<noteq> []
        \<and> ''1111'' \<noteq> playerID guest \<and> clients_ref with_guest ''1111'' = Some 0
        \<and> heap with_guest 0 = Some \<lparr> ws = 0, playerID = ''1111'', name = Some ''Player 1111'',
                         location = None, opponentID = None, lastState = None \<rparr>"
    by (simp add: toOpponent_def emptyPayload_def with_guest_eq clients_ref_def guest_def)
  with th have "\<exists>st' out.
       handleMessage 2 \<lparr>msg_type = Some ''game:start'', payload = Some (toOpponent ''1111'')\<rparr>
         7000 rnd0 with_guest = Inr (st', out)
       \<and> map_option opponentID (heap st' 0) = Some (Some (playerID guest))"
    by blast
  then have c: "(case handleMessage 2
               \<lparr>msg_type = Some ''game:start'', payload = Some (toOpponent ''1111'')\<rparr>
               7000 rnd0 with_guest of
         Inl err \<Rightarrow> False
       | Inr (st', out) \<Rightarrow> map_option opponentID (heap st' 0) = Some (Some ''temp_c''))"
    using pid by auto
  from s t a b c pid show ?thesis by simp
qed


end
